theory Spec2Isabelle
  imports Complex_Main "HOL-Library.Word" "HOL-Library.Sublist" "HOL-Library.AList"
begin

section \<open>QNN log parser: data model\<close>

text \<open>
  The parser of \<^verbatim>\<open>qnn_log_parser.py\<close> works on the bytes of one profiling file.
  A Python \<^verbatim>\<open>bytes\<close> object is a list of 8-bit words, Python integers are \<open>int\<close>,
  Python strings are \<open>string\<close>, and a Python \<^verbatim>\<open>dict\<close> is an association list in
  insertion order: \<open>map_of d k\<close> looks a key up, \<open>AList.update k v d\<close> is the assignment
  \<^verbatim>\<open>d[k] = v\<close> (a new key goes to the end, an existing key keeps its place), and iterating
  the dictionary walks the list from the left.  An exception is a value \<open>Inl e\<close> of a sum.
\<close>

datatype py_error = StructError | IndexError | KeyError | ZeroDivisionError

type_synonym byte = "8 word"

type_synonym ('k, 'v) dict = "('k \<times> 'v) list"

text \<open>The slice \<^verbatim>\<open>xs[lo:hi]\<close>: negative bounds count from the end, both are clamped.\<close>

definition py_slice :: "'a list \<Rightarrow> int \<Rightarrow> int \<Rightarrow> 'a list" where
  "py_slice xs lo hi =
     (let n = int (length xs);
          l = (if lo < 0 then max 0 (n + lo) else min lo n);
          h = (if hi < 0 then max 0 (n + hi) else min hi n)
      in take (nat (h - l)) (drop (nat l) xs))"

text \<open>
  \<^verbatim>\<open>struct.unpack('<I', b)[0]\<close>: four bytes, least significant first, as an unsigned
  integer; any other length raises \<^verbatim>\<open>struct.error\<close>.
\<close>

definition struct_unpack_I :: "byte list \<Rightarrow> py_error + int" where
  "struct_unpack_I b =
     (case b of
        [b0, b1, b2, b3] \<Rightarrow> Inr (uint b0 + 256 * uint b1 + 65536 * uint b2 + 16777216 * uint b3)
      | _ \<Rightarrow> Inl StructError)"

text \<open>\<^verbatim>\<open>sub in s\<close> on strings: \<open>sub\<close> occurs in \<open>s\<close> as a contiguous block.\<close>

fun py_in :: "string \<Rightarrow> string \<Rightarrow> bool" where
  "py_in sub [] = (sub = [])"
| "py_in sub (c # cs) = (prefix sub (c # cs) \<or> py_in sub cs)"

text \<open>\<^verbatim>\<open>chr(byte)\<close> for a byte of the buffer.\<close>

definition chr :: "byte \<Rightarrow> char" where
  "chr b = char_of (unat b)"

section \<open>The metric table\<close>

text \<open>
  \<^verbatim>\<open>self.metric_patterns\<close>: label to key, unit and type.  Thirteen entries and
  \<open>duration\<close> have the unit \<open>microseconds\<close> and the type \<open>timing\<close>, written
  \<open>timing_us key\<close>; the last two have the unit \<open>count\<close> and the type \<open>counter\<close>,
  written \<open>counter key\<close>.
\<close>

record pattern_info =
  info_key :: string
  info_unit :: string
  info_type :: string

definition timing_us :: "string \<Rightarrow> pattern_info" where
  "timing_us k = \<lparr>info_key = k, info_unit = ''microseconds'', info_type = ''timing''\<rparr>"

definition counter :: "string \<Rightarrow> pattern_info" where
  "counter k = \<lparr>info_key = k, info_unit = ''count'', info_type = ''counter''\<rparr>"

definition metric_patterns :: "(string, pattern_info) dict" where
  "metric_patterns =
     [(''QNN (deinit) time'', timing_us ''qnn_deinit_time_us''),
      (''Accelerator (deinit) time'', timing_us ''accelerator_deinit_time_us''),
      (''QNN Accelerator (deinit) time'', timing_us ''qnn_accelerator_deinit_time_us''),
      (''RPC (deinit) time'', timing_us ''rpc_deinit_time_us''),
      (''QNN (execute) time'', timing_us ''qnn_execute_time_us''),
      (''Accelerator (execute excluding wait) time'',
         timing_us ''accelerator_execute_excluding_wait_time_us''),
      (''Accelerator (execute) time'', timing_us ''accelerator_execute_time_us''),
      (''QNN accelerator (execute) time'', timing_us ''qnn_accelerator_execute_time_us''),
      (''RPC (execute) time'', timing_us ''rpc_execute_time_us''),
      (''QNN (finalize) time'', timing_us ''qnn_finalize_time_us''),
      (''Accelerator (finalize) time'', timing_us ''accelerator_finalize_time_us''),
      (''QNN accelerator (finalize) time'', timing_us ''qnn_accelerator_finalize_time_us''),
      (''RPC (finalize) time'', timing_us ''rpc_finalize_time_us''),
      (''duration'', timing_us ''duration_us''),
      (''numInferences'', counter ''num_inferences''),
      (''Number of HVX threads used'', counter ''hvx_threads_used'')]"

section \<open>Reading a value near a label\<close>

text \<open>
  \<^verbatim>\<open>extract_value_at_offset\<close>: the body of the \<^verbatim>\<open>try\<close> is \<open>attempt\<close>; the handler
  catches \<^verbatim>\<open>struct.error\<close> and \<^verbatim>\<open>IndexError\<close> and falls through to \<^verbatim>\<open>return None\<close>.
\<close>

definition extract_value_at_offset :: "byte list \<Rightarrow> int \<Rightarrow> int \<Rightarrow> py_error + int option" where
  "extract_value_at_offset data position offset =
     (let value_pos = position + offset;
          attempt =
            (if 0 \<le> value_pos \<and> value_pos \<le> int (length data) - 4
             then (case struct_unpack_I (py_slice data value_pos (value_pos + 4)) of
                     Inl e \<Rightarrow> Inl e
                   | Inr value \<Rightarrow> Inr (Some value))
             else Inr None)
      in case attempt of
           Inl e \<Rightarrow> (if e = StructError \<or> e = IndexError then Inr None else Inl e)
         | Inr r \<Rightarrow> Inr r)"

definition search_offsets :: "int list" where
  "search_offsets =
     [16, 20, 28, 36, 40, 52, 56, 64,
      -12, -16, -20, -28, -36, -40, -52, -56, -64, -68, -72, -76, -80, -84, -88, -92, -96, -100,
      8, 12, 24, 32, 44, 48, 60, 68, 72, 76, 80, 84, 88, 92, 96, 100]"

text \<open>
  \<^verbatim>\<open>extract_metric_value\<close>.  The inner \<^verbatim>\<open>for offset in search_offsets\<close> is
  \<open>offset_loop\<close>: \<^verbatim>\<open>continue\<close> goes on with the remaining offsets, \<^verbatim>\<open>return\<close> ends both
  loops with the pair \<open>(value, offset)\<close>.  The outer \<^verbatim>\<open>for string_pos in string_positions\<close>
  is \<open>position_loop\<close>.  Falling out of both loops returns \<^verbatim>\<open>(None, -1)\<close>.
\<close>

fun offset_loop :: "byte list \<Rightarrow> string \<Rightarrow> int \<Rightarrow> int list \<Rightarrow> py_error + (int \<times> int) option" where
  "offset_loop data pattern_type string_pos [] = Inr None"
| "offset_loop data pattern_type string_pos (offset # offsets) =
     (case extract_value_at_offset data string_pos offset of
        Inl e \<Rightarrow> Inl e
      | Inr None \<Rightarrow> offset_loop data pattern_type string_pos offsets
      | Inr (Some value) \<Rightarrow>
          if pattern_type = ''counter'' then
            (if value > 1000000 then offset_loop data pattern_type string_pos offsets
             else Inr (Some (value, offset)))
          else if pattern_type = ''timing'' then
            (if value > 10000000 then offset_loop data pattern_type string_pos offsets
             else Inr (Some (value, offset)))
          else Inr (Some (value, offset)))"

fun position_loop :: "byte list \<Rightarrow> string \<Rightarrow> int list \<Rightarrow> py_error + (int \<times> int) option" where
  "position_loop data pattern_type [] = Inr None"
| "position_loop data pattern_type (string_pos # string_positions) =
     (case offset_loop data pattern_type string_pos search_offsets of
        Inl e \<Rightarrow> Inl e
      | Inr (Some r) \<Rightarrow> Inr (Some r)
      | Inr None \<Rightarrow> position_loop data pattern_type string_positions)"

definition extract_metric_value ::
  "byte list \<Rightarrow> int list \<Rightarrow> pattern_info \<Rightarrow> py_error + (int option \<times> int)" where
  "extract_metric_value data string_positions pattern_info =
     (let pattern_type = info_type pattern_info
      in case position_loop data pattern_type string_positions of
           Inl e \<Rightarrow> Inl e
         | Inr (Some (value, offset)) \<Rightarrow> Inr (Some value, offset)
         | Inr None \<Rightarrow> Inr (None, -1))"

section \<open>Scanning for labels\<close>

text \<open>
  \<^verbatim>\<open>extract_strings_and_positions\<close>.  \<open>record_string\<close> is the three lines that the loop
  body and the final flush share: create the list for a new string, then append the start
  position.  \<open>scan_loop\<close> is \<^verbatim>\<open>for i, byte in enumerate(data)\<close>, with the index \<open>i\<close> and
  the three local variables as arguments; it returns them as they are after the last byte.
\<close>

definition record_string ::
  "(string, int list) dict \<Rightarrow> string \<Rightarrow> int \<Rightarrow> (string, int list) dict" where
  "record_string strings_positions current_string start_pos =
     (let sp = (if map_of strings_positions current_string = None
                then AList.update current_string [] strings_positions
                else strings_positions)
      in case map_of sp current_string of
           Some positions \<Rightarrow> AList.update current_string (positions @ [start_pos]) sp
         | None \<Rightarrow> sp)"

fun scan_loop ::
  "(string, int list) dict \<Rightarrow> string \<Rightarrow> int \<Rightarrow> int \<Rightarrow> byte list
     \<Rightarrow> (string, int list) dict \<times> string \<times> int" where
  "scan_loop strings_positions current_string start_pos i [] =
     (strings_positions, current_string, start_pos)"
| "scan_loop strings_positions current_string start_pos i (byte # rest) =
     (if 32 \<le> byte \<and> byte \<le> 126 then
        scan_loop strings_positions (current_string @ [chr byte])
          (if current_string = [] then i else start_pos) (i + 1) rest
      else
        scan_loop
          (if length current_string \<ge> 3
           then record_string strings_positions current_string start_pos
           else strings_positions)
          [] start_pos (i + 1) rest)"

definition extract_strings_and_positions :: "byte list \<Rightarrow> (string, int list) dict" where
  "extract_strings_and_positions data =
     (case scan_loop [] [] 0 0 data of
        (strings_positions, current_string, start_pos) \<Rightarrow>
          if length current_string \<ge> 3
          then record_string strings_positions current_string start_pos
          else strings_positions)"

section \<open>The report\<close>

text \<open>
  The nested dictionary \<^verbatim>\<open>results\<close> that \<^verbatim>\<open>parse_file\<close> builds has fixed keys, so it is
  a record of records.  A field keeps the name of its key, with a prefix where the key is
  also the name of a local variable of the source: \<open>info_\<close> for the three keys of a table
  entry, \<open>detail_\<close> for those of an extraction detail, and \<open>metrics_dict\<close> for
  \<^verbatim>\<open>results['metrics']\<close>.  The two positions of an extraction detail are stored as text, in the
  format \<^verbatim>\<open>f"0x{n:04x}"\<close>: lower-case hexadecimal digits, a minus sign for a negative
  number, zeros between sign and digits up to four characters in all.
\<close>

definition hex_digit :: "nat \<Rightarrow> char" where
  "hex_digit d = ''0123456789abcdef'' ! d"

fun hex_digits :: "nat \<Rightarrow> string" where
  "hex_digits n = (if n < 16 then [hex_digit n] else hex_digits (n div 16) @ [hex_digit (n mod 16)])"

declare hex_digits.simps [simp del]

definition format_04x :: "int \<Rightarrow> string" where
  "format_04x n =
     (let digits = hex_digits (nat \<bar>n\<bar>);
          sign = (if n < 0 then ''-'' else [])
      in sign @ replicate (4 - length sign - length digits) (CHR ''0'') @ digits)"

record file_info =
  path :: string
  size_bytes :: int
  backend_version :: string
  graph_name :: string

record extraction_info =
  strings_found :: int
  metrics_extracted :: int
  failed_extractions :: "string list"

record extraction_detail =
  detail_pattern :: string
  detail_key :: string
  detail_value :: int
  detail_string_position :: string
  detail_offset_used :: int
  detail_extraction_position :: string
  detail_unit :: string
  detail_type :: string

record results =
  file_info :: file_info
  extraction_info :: extraction_info
  metrics_dict :: "(string, int) dict"
  raw_extraction_details :: "extraction_detail list"

text \<open>
  \<^verbatim>\<open>for string_val, positions in strings_positions.items()\<close>, the loop under
  ``Extract version and graph info''.
\<close>

fun version_graph_loop :: "(string \<times> int list) list \<Rightarrow> results \<Rightarrow> results" where
  "version_graph_loop [] results = results"
| "version_graph_loop ((string_val, positions) # items) results =
     (if py_in ''v2.35.0'' string_val then
        version_graph_loop items
          (results\<lparr>file_info := (file_info results)\<lparr>backend_version := string_val\<rparr>\<rparr>)
      else if py_in ''_quantized_htp'' string_val \<or> py_in ''_quantized_cpu'' string_val
              \<or> py_in ''_quantized_gpu'' string_val then
        version_graph_loop items
          (results\<lparr>file_info := (file_info results)\<lparr>graph_name := string_val\<rparr>\<rparr>)
      else version_graph_loop items results)"

text \<open>
  \<^verbatim>\<open>for pattern_name, pattern_info in self.metric_patterns.items()\<close>, the loop under
  ``Extract metrics''; its state is \<^verbatim>\<open>results\<close> and \<^verbatim>\<open>extracted_count\<close>.
  \<^verbatim>\<open>positions[0]\<close> raises \<^verbatim>\<open>IndexError\<close> on an empty list.
\<close>

fun metrics_loop ::
  "byte list \<Rightarrow> (string, int list) dict \<Rightarrow> (string \<times> pattern_info) list \<Rightarrow> results \<Rightarrow> int
     \<Rightarrow> py_error + results \<times> int" where
  "metrics_loop data strings_positions [] results extracted_count =
     Inr (results, extracted_count)"
| "metrics_loop data strings_positions ((pattern_name, pattern_info) # items) results
       extracted_count =
     (case map_of strings_positions pattern_name of
        None \<Rightarrow> metrics_loop data strings_positions items results extracted_count
      | Some positions \<Rightarrow>
          (case extract_metric_value data positions pattern_info of
             Inl e \<Rightarrow> Inl e
           | Inr (Some value, offset_used) \<Rightarrow>
               (case positions of
                  [] \<Rightarrow> Inl IndexError
                | first_position # _ \<Rightarrow>
                    metrics_loop data strings_positions items
                      (results
                         \<lparr>metrics_dict :=
                            AList.update (info_key pattern_info) value (metrics_dict results),
                          raw_extraction_details :=
                            raw_extraction_details results @
                              [\<lparr>detail_pattern = pattern_name,
                                detail_key = info_key pattern_info,
                                detail_value = value,
                                detail_string_position = ''0x'' @ format_04x first_position,
                                detail_offset_used = offset_used,
                                detail_extraction_position =
                                  ''0x'' @ format_04x (first_position + offset_used),
                                detail_unit = info_unit pattern_info,
                                detail_type = info_type pattern_info\<rparr>]\<rparr>)
                      (extracted_count + 1))
           | Inr (None, offset_used) \<Rightarrow>
               metrics_loop data strings_positions items
                 (results
                    \<lparr>extraction_info :=
                       (extraction_info results)
                         \<lparr>failed_extractions :=
                            failed_extractions (extraction_info results) @ [pattern_name]\<rparr>\<rparr>)
                 extracted_count))"

text \<open>
  \<^verbatim>\<open>parse_file\<close>, from the bytes \<open>data\<close> that \<^verbatim>\<open>f.read()\<close> returned for \<open>file_path\<close>.
\<close>

definition parse_file :: "string \<Rightarrow> byte list \<Rightarrow> py_error + results" where
  "parse_file file_path data =
     (let strings_positions = extract_strings_and_positions data;
          results =
            \<lparr>file_info =
               \<lparr>path = file_path, size_bytes = int (length data),
                backend_version = [], graph_name = []\<rparr>,
             extraction_info =
               \<lparr>strings_found = int (length strings_positions), metrics_extracted = 0,
                failed_extractions = []\<rparr>,
             metrics_dict = [],
             raw_extraction_details = []\<rparr>;
          results = version_graph_loop strings_positions results
      in case metrics_loop data strings_positions metric_patterns results 0 of
           Inl e \<Rightarrow> Inl e
         | Inr (results, extracted_count) \<Rightarrow>
             Inr (results
                    \<lparr>extraction_info :=
                       (extraction_info results)\<lparr>metrics_extracted := extracted_count\<rparr>\<rparr>))"

section \<open>Derived metrics\<close>

text \<open>
  The values of the \<^verbatim>\<open>derived\<close> dictionary are Python integers and floats.  A float is
  modelled by the rational number it approximates: \<^verbatim>\<open>a / b\<close> is the exact quotient, and
  the rounding to a binary64 is left out.  \<^verbatim>\<open>a / b\<close> raises \<^verbatim>\<open>ZeroDivisionError\<close> for
  \<open>b = 0\<close>, and \<^verbatim>\<open>d[k]\<close> raises \<^verbatim>\<open>KeyError\<close> for a key that \<open>d\<close> does not have.
\<close>

datatype number = PyInt int | PyFloat rat

fun rat_of :: "number \<Rightarrow> rat" where
  "rat_of (PyInt i) = of_int i"
| "rat_of (PyFloat f) = f"

definition truediv :: "number \<Rightarrow> number \<Rightarrow> py_error + number" where
  "truediv a b = (if rat_of b = 0 then Inl ZeroDivisionError else Inr (PyFloat (rat_of a / rat_of b)))"

fun mul :: "number \<Rightarrow> number \<Rightarrow> number" where
  "mul (PyInt a) (PyInt b) = PyInt (a * b)"
| "mul a b = PyFloat (rat_of a * rat_of b)"

definition getitem :: "('k, 'v) dict \<Rightarrow> 'k \<Rightarrow> py_error + 'v" where
  "getitem d k = (case map_of d k of None \<Rightarrow> Inl KeyError | Some v \<Rightarrow> Inr v)"

definition contains :: "('k, 'v) dict \<Rightarrow> 'k \<Rightarrow> bool" where
  "contains d k = (map_of d k \<noteq> None)"

text \<open>Sequencing of two steps, the second of which runs if the first did not raise.\<close>

definition and_then :: "'e + 'a \<Rightarrow> ('a \<Rightarrow> 'e + 'b) \<Rightarrow> 'e + 'b" where
  "and_then r f = (case r of Inl e \<Rightarrow> Inl e | Inr x \<Rightarrow> f x)"

text \<open>
  \<^verbatim>\<open>calculate_derived_metrics\<close>, one definition for each block of the function, in the
  order of the source; each takes the \<^verbatim>\<open>derived\<close> dictionary as it stands and returns it
  updated.
\<close>

definition primary_execution_time :: "(string, int) dict \<Rightarrow> (string, number) dict \<Rightarrow> py_error + (string, number) dict" where
  "primary_execution_time metrics derived =
     (if contains metrics ''qnn_execute_time_us'' then
        and_then (getitem metrics ''qnn_execute_time_us'') (\<lambda>v.
          Inr (AList.update ''primary_execution_time_us'' (PyInt v) derived))
      else if contains metrics ''accelerator_execute_time_us'' then
        and_then (getitem metrics ''accelerator_execute_time_us'') (\<lambda>v.
          Inr (AList.update ''primary_execution_time_us'' (PyInt v) derived))
      else Inr derived)"

definition throughput_calculations :: "(string, int) dict \<Rightarrow> (string, number) dict \<Rightarrow> py_error + (string, number) dict" where
  "throughput_calculations metrics derived =
     (if contains derived ''primary_execution_time_us'' \<and> contains metrics ''num_inferences'' then
        and_then (getitem derived ''primary_execution_time_us'') (\<lambda>exec_time.
        and_then (getitem metrics ''num_inferences'') (\<lambda>num_inf.
          if rat_of exec_time > 0 \<and> num_inf > 0 then
            and_then (truediv (mul (PyInt 1000000) (PyInt num_inf)) exec_time) (\<lambda>throughput.
            and_then (truediv exec_time (PyInt num_inf)) (\<lambda>avg_time.
              Inr (AList.update ''avg_time_per_inference_us'' avg_time
                    (AList.update ''throughput_inferences_per_second'' throughput derived))))
          else Inr derived))
      else Inr derived)"

text \<open>
  \<^verbatim>\<open>for key, value in metrics.items()\<close>: the three lists, in the order of the source.
\<close>

fun component_loop :: "(string \<times> int) list \<Rightarrow> int list \<Rightarrow> int list \<Rightarrow> int list
    \<Rightarrow> int list \<times> int list \<times> int list" where
  "component_loop [] execution_times finalize_times deinit_times =
     (execution_times, finalize_times, deinit_times)"
| "component_loop ((key, value) # items) execution_times finalize_times deinit_times =
     (if py_in ''execute'' key \<and> py_in ''time_us'' key then
        component_loop items (execution_times @ [value]) finalize_times deinit_times
      else if py_in ''finalize'' key \<and> py_in ''time_us'' key then
        component_loop items execution_times (finalize_times @ [value]) deinit_times
      else if py_in ''deinit'' key \<and> py_in ''time_us'' key then
        component_loop items execution_times finalize_times (deinit_times @ [value])
      else component_loop items execution_times finalize_times deinit_times)"

text \<open>
  \<^verbatim>\<open>if bucket: derived[total] = sum(bucket); derived[avg] = sum(bucket) / len(bucket)\<close>,
  the statement that follows the loop once for each of the three lists.
\<close>

definition total_and_avg :: "string \<Rightarrow> string \<Rightarrow> int list \<Rightarrow> (string, number) dict \<Rightarrow> py_error + (string, number) dict" where
  "total_and_avg total_key avg_key bucket derived =
     (if bucket \<noteq> [] then
        and_then (truediv (PyInt (sum_list bucket)) (PyInt (int (length bucket)))) (\<lambda>avg.
          Inr (AList.update avg_key avg
                (AList.update total_key (PyInt (sum_list bucket)) derived)))
      else Inr derived)"

definition component_timing_analysis :: "(string, int) dict \<Rightarrow> (string, number) dict \<Rightarrow> py_error + (string, number) dict" where
  "component_timing_analysis metrics derived =
     (case component_loop metrics [] [] [] of
        (execution_times, finalize_times, deinit_times) \<Rightarrow>
          and_then (total_and_avg ''total_execution_time_us'' ''avg_execution_time_us''
                      execution_times derived) (\<lambda>derived.
          and_then (total_and_avg ''total_finalize_time_us'' ''avg_finalize_time_us''
                      finalize_times derived) (\<lambda>derived.
          total_and_avg ''total_deinit_time_us'' ''avg_deinit_time_us'' deinit_times derived)))"

definition efficiency_calculations :: "(string, int) dict \<Rightarrow> (string, number) dict \<Rightarrow> py_error + (string, number) dict" where
  "efficiency_calculations metrics derived =
     (if contains metrics ''accelerator_execute_time_us'' \<and> contains metrics ''qnn_execute_time_us'' then
        and_then (getitem metrics ''qnn_execute_time_us'') (\<lambda>qnn.
          if qnn > 0 then
            and_then (getitem metrics ''accelerator_execute_time_us'') (\<lambda>acc.
            and_then (truediv (PyInt acc) (PyInt qnn)) (\<lambda>q.
              Inr (AList.update ''accelerator_efficiency_percent'' (mul q (PyInt 100)) derived)))
          else Inr derived)
      else Inr derived)"

definition rpc_overhead_analysis :: "(string, int) dict \<Rightarrow> (string, number) dict \<Rightarrow> py_error + (string, number) dict" where
  "rpc_overhead_analysis metrics derived =
     (if contains metrics ''rpc_execute_time_us'' \<and> contains metrics ''accelerator_execute_time_us'' then
        and_then (getitem metrics ''accelerator_execute_time_us'') (\<lambda>acc.
          if acc > 0 then
            and_then (getitem metrics ''rpc_execute_time_us'') (\<lambda>rpc.
            and_then (truediv (PyInt rpc) (PyInt acc)) (\<lambda>overhead_ratio.
              Inr (AList.update ''rpc_overhead_ratio'' overhead_ratio derived)))
          else Inr derived)
      else Inr derived)"

definition calculate_derived_metrics :: "(string, int) dict \<Rightarrow> py_error + (string, number) dict" where
  "calculate_derived_metrics metrics =
     and_then (primary_execution_time metrics []) (\<lambda>derived.
     and_then (throughput_calculations metrics derived) (\<lambda>derived.
     and_then (component_timing_analysis metrics derived) (\<lambda>derived.
     and_then (efficiency_calculations metrics derived) (\<lambda>derived.
     rpc_overhead_analysis metrics derived))))"

section \<open>Notions of the specification\<close>

text \<open>
  The specification speaks of the unsigned 32-bit little-endian integer in the four bytes
  from an index on, of the probe of a buffer at a base and a delta, of a value that passes
  the validation of a metric kind, and of the pairs of an occurrence and a delta in nested
  order.  These definitions follow its words; the theorems compare the code with them.
\<close>

definition u32_le_at :: "byte list \<Rightarrow> nat \<Rightarrow> int" where
  "u32_le_at data pos = (\<Sum>k < 4. uint (data ! (pos + k)) * 256 ^ k)"

definition probe :: "byte list \<Rightarrow> int \<Rightarrow> int \<Rightarrow> int option" where
  "probe data base delta =
     (if base + delta < 0 \<or> base + delta > int (length data) - 4 then None
      else Some (u32_le_at data (nat (base + delta))))"

definition passes_validation :: "string \<Rightarrow> int \<Rightarrow> bool" where
  "passes_validation kind v =
     (if kind = ''counter'' then v \<le> 1000000
      else if kind = ''timing'' then v \<le> 10000000
      else True)"

definition accepted :: "byte list \<Rightarrow> string \<Rightarrow> int \<times> int \<Rightarrow> bool" where
  "accepted data kind pair =
     (case probe data (fst pair) (snd pair) of None \<Rightarrow> False | Some v \<Rightarrow> passes_validation kind v)"

definition first_accepted :: "byte list \<Rightarrow> string \<Rightarrow> int list \<Rightarrow> (int \<times> int) option" where
  "first_accepted data kind occurrences =
     find (accepted data kind) (List.product occurrences search_offsets)"

text \<open>
  A printable character, a label occurring verbatim at an offset of a buffer, and what the
  specification requires of one entry of the label map: a printable label of at least three
  characters with a non-empty, ascending list of offsets at which it occurs, each occurrence
  ending at or before \<open>bound\<close>.
\<close>

definition printable :: "char \<Rightarrow> bool" where
  "printable c = (32 \<le> (of_char c :: nat) \<and> (of_char c :: nat) \<le> 126)"

definition occurs_at :: "byte list \<Rightarrow> string \<Rightarrow> int \<Rightarrow> bool" where
  "occurs_at data label off =
     (0 \<le> off \<and> nat off + length label \<le> length data
      \<and> map chr (take (length label) (drop (nat off) data)) = label)"

definition entry_ok :: "byte list \<Rightarrow> nat \<Rightarrow> string \<Rightarrow> int list \<Rightarrow> bool" where
  "entry_ok data bound label offsets =
     (3 \<le> length label \<and> list_all printable label \<and> offsets \<noteq> [] \<and> sorted_wrt (<) offsets
      \<and> list_all (\<lambda>off. occurs_at data label off \<and> nat off + length label \<le> bound) offsets)"

text \<open>
  The invariant of the scan after the bytes \<open>seen\<close>: the current run is the text of a
  printable suffix of \<open>seen\<close> that starts at \<open>start_pos\<close>, and every entry recorded so
  far is as required, its occurrences ending before the current run starts.
\<close>

definition scan_inv :: "byte list \<Rightarrow> (string, int list) dict \<Rightarrow> string \<Rightarrow> int \<Rightarrow> bool" where
  "scan_inv seen strings_positions current_string start_pos =
     (length current_string \<le> length seen
      \<and> current_string = map chr (drop (length seen - length current_string) seen)
      \<and> list_all (\<lambda>b. 32 \<le> b \<and> b \<le> 126) (drop (length seen - length current_string) seen)
      \<and> (current_string = [] \<or> start_pos = int (length seen) - int (length current_string))
      \<and> distinct (map fst strings_positions)
      \<and> list_all (\<lambda>(label, offsets).
            entry_ok seen (length seen - length current_string) label offsets)
          strings_positions)"

text \<open>
  An entry of the metric table whose label was found and whose search accepted a value,
  and one whose label was found but whose search accepted none.
\<close>

definition succeeded :: "byte list \<Rightarrow> (string, int list) dict \<Rightarrow> string \<times> pattern_info \<Rightarrow> bool" where
  "succeeded data occurrences entry =
     (case map_of occurrences (fst entry) of
        None \<Rightarrow> False
      | Some positions \<Rightarrow> first_accepted data (info_type (snd entry)) positions \<noteq> None)"

definition found_but_failed ::
  "byte list \<Rightarrow> (string, int list) dict \<Rightarrow> string \<times> pattern_info \<Rightarrow> bool" where
  "found_but_failed data occurrences entry =
     (case map_of occurrences (fst entry) of
        None \<Rightarrow> False
      | Some positions \<Rightarrow> first_accepted data (info_type (snd entry)) positions = None)"

text \<open>
  What an extraction detail records, in terms of the label map: the first occurrence of its
  label and that occurrence plus the delta, both as text, while the value is the one read
  by the first accepted pair of the search, at an occurrence \<open>p\<close> of the label.
\<close>

definition detail_sound :: "byte list \<Rightarrow> (string, int list) dict \<Rightarrow> extraction_detail \<Rightarrow> bool" where
  "detail_sound data occurrences d =
     (case map_of occurrences (detail_pattern d) of
        None \<Rightarrow> False
      | Some positions \<Rightarrow>
          (case first_accepted data (detail_type d) positions of
             None \<Rightarrow> False
           | Some (p, delta) \<Rightarrow>
               positions \<noteq> []
               \<and> detail_string_position d = ''0x'' @ format_04x (hd positions)
               \<and> detail_offset_used d = delta
               \<and> detail_extraction_position d = ''0x'' @ format_04x (hd positions + delta)
               \<and> p \<in> set positions
               \<and> probe data p delta = Some (detail_value d)
               \<and> 0 \<le> p + delta \<and> p + delta \<le> int (length data) - 4))"

text \<open>The last element of a list of strings, or the empty string.\<close>

definition last_or_empty :: "string list \<Rightarrow> string" where
  "last_or_empty xs = (if xs = [] then [] else last xs)"

definition is_version :: "string \<Rightarrow> bool" where
  "is_version s = py_in ''v2.35.0'' s"

definition is_graph :: "string \<Rightarrow> bool" where
  "is_graph s =
     (py_in ''_quantized_htp'' s \<or> py_in ''_quantized_cpu'' s \<or> py_in ''_quantized_gpu'' s)"

text \<open>
  The report as \<^verbatim>\<open>parse_file\<close> has it when the loop over the metric table starts.
\<close>

definition initial_results :: "string \<Rightarrow> byte list \<Rightarrow> results" where
  "initial_results file_path data =
     version_graph_loop (extract_strings_and_positions data)
       \<lparr>file_info =
          \<lparr>path = file_path, size_bytes = int (length data),
           backend_version = [], graph_name = []\<rparr>,
        extraction_info =
          \<lparr>strings_found = int (length (extract_strings_and_positions data)),
           metrics_extracted = 0, failed_extractions = []\<rparr>,
        metrics_dict = [],
        raw_extraction_details = []\<rparr>"

text \<open>
  The number that a text in the format \<^verbatim>\<open>0x%04x\<close> of the report stands for: after the
  prefix \<open>0x\<close>, an optional minus sign and hexadecimal digits.
\<close>

definition hex_digit_value :: "char \<Rightarrow> nat" where
  "hex_digit_value c = (if of_char c < (58 :: nat) then of_char c - 48 else of_char c - 87)"

definition hex_value :: "string \<Rightarrow> nat" where
  "hex_value s = foldl (\<lambda>a c. 16 * a + hex_digit_value c) 0 s"

definition parse_0x :: "string \<Rightarrow> int" where
  "parse_0x s =
     (case drop 2 s of
        [] \<Rightarrow> 0
      | c # cs \<Rightarrow> if c = CHR ''-'' then - int (hex_value cs) else int (hex_value (c # cs)))"

text \<open>
  The primary execution time of a metric map, the tests that decide the bucket of a key,
  and the values of the keys of a metric map that pass a test, in the order of the map.
\<close>

definition primary :: "(string, int) dict \<Rightarrow> int option" where
  "primary metrics =
     (case map_of metrics ''qnn_execute_time_us'' of
        Some v \<Rightarrow> Some v
      | None \<Rightarrow> map_of metrics ''accelerator_execute_time_us'')"

definition in_execution_bucket :: "string \<Rightarrow> bool" where
  "in_execution_bucket k = (py_in ''execute'' k \<and> py_in ''time_us'' k)"

definition in_finalize_bucket :: "string \<Rightarrow> bool" where
  "in_finalize_bucket k =
     (\<not> in_execution_bucket k \<and> py_in ''finalize'' k \<and> py_in ''time_us'' k)"

definition in_deinit_bucket :: "string \<Rightarrow> bool" where
  "in_deinit_bucket k =
     (\<not> in_execution_bucket k \<and> \<not> in_finalize_bucket k
      \<and> py_in ''deinit'' k \<and> py_in ''time_us'' k)"

definition bucket :: "(string \<Rightarrow> bool) \<Rightarrow> (string, int) dict \<Rightarrow> int list" where
  "bucket test metrics = map snd (filter (\<lambda>item. test (fst item)) metrics)"

text \<open>The arithmetic mean of a list of integers.\<close>

definition mean :: "int list \<Rightarrow> rat" where
  "mean xs = of_int (sum_list xs) / of_int (int (length xs))"

text \<open>
  The values of rules 2, 4 and 5 of the specification, each present when the inputs of the
  rule are present and the divisors are positive: throughput, average time per inference,
  accelerator efficiency in percent, and RPC overhead ratio.  The total and the average of
  a bucket are present when the bucket is not empty.
\<close>

definition throughput_inferences_per_second :: "(string, int) dict \<Rightarrow> number option" where
  "throughput_inferences_per_second metrics =
     (case primary metrics of
        None \<Rightarrow> None
      | Some exec_time \<Rightarrow>
          (case map_of metrics ''num_inferences'' of
             None \<Rightarrow> None
           | Some num_inf \<Rightarrow>
               if 0 < exec_time \<and> 0 < num_inf
               then Some (PyFloat (of_int (1000000 * num_inf) / of_int exec_time))
               else None))"

definition avg_time_per_inference_us :: "(string, int) dict \<Rightarrow> number option" where
  "avg_time_per_inference_us metrics =
     (case primary metrics of
        None \<Rightarrow> None
      | Some exec_time \<Rightarrow>
          (case map_of metrics ''num_inferences'' of
             None \<Rightarrow> None
           | Some num_inf \<Rightarrow>
               if 0 < exec_time \<and> 0 < num_inf
               then Some (PyFloat (of_int exec_time / of_int num_inf))
               else None))"

definition accelerator_efficiency_percent :: "(string, int) dict \<Rightarrow> number option" where
  "accelerator_efficiency_percent metrics =
     (case map_of metrics ''accelerator_execute_time_us'' of
        None \<Rightarrow> None
      | Some acc \<Rightarrow>
          (case map_of metrics ''qnn_execute_time_us'' of
             None \<Rightarrow> None
           | Some qnn \<Rightarrow>
               if 0 < qnn then Some (PyFloat (of_int acc / of_int qnn * 100)) else None))"

definition rpc_overhead_ratio :: "(string, int) dict \<Rightarrow> number option" where
  "rpc_overhead_ratio metrics =
     (case map_of metrics ''rpc_execute_time_us'' of
        None \<Rightarrow> None
      | Some rpc \<Rightarrow>
          (case map_of metrics ''accelerator_execute_time_us'' of
             None \<Rightarrow> None
           | Some acc \<Rightarrow>
               if 0 < acc then Some (PyFloat (of_int rpc / of_int acc)) else None))"

definition bucket_total :: "int list \<Rightarrow> number option" where
  "bucket_total xs = (if xs = [] then None else Some (PyInt (sum_list xs)))"

definition bucket_avg :: "int list \<Rightarrow> number option" where
  "bucket_avg xs = (if xs = [] then None else Some (PyFloat (mean xs)))"

text \<open>
  The value that the five rules give to a key of the derived map; a key that no rule
  emits has none.
\<close>

definition derived_value :: "(string, int) dict \<Rightarrow> string \<Rightarrow> number option" where
  "derived_value metrics k =
     (if k = ''rpc_overhead_ratio'' then rpc_overhead_ratio metrics
      else if k = ''accelerator_efficiency_percent'' then accelerator_efficiency_percent metrics
      else if k = ''avg_deinit_time_us'' then bucket_avg (bucket in_deinit_bucket metrics)
      else if k = ''total_deinit_time_us'' then bucket_total (bucket in_deinit_bucket metrics)
      else if k = ''avg_finalize_time_us'' then bucket_avg (bucket in_finalize_bucket metrics)
      else if k = ''total_finalize_time_us'' then bucket_total (bucket in_finalize_bucket metrics)
      else if k = ''avg_execution_time_us'' then bucket_avg (bucket in_execution_bucket metrics)
      else if k = ''total_execution_time_us''
      then bucket_total (bucket in_execution_bucket metrics)
      else if k = ''avg_time_per_inference_us'' then avg_time_per_inference_us metrics
      else if k = ''throughput_inferences_per_second''
      then throughput_inferences_per_second metrics
      else if k = ''primary_execution_time_us'' then map_option PyInt (primary metrics)
      else None)"

text \<open>
  A map of primitive metrics has keys of the metric table only.  The tests of rule 3 of the
  specification on the text of a key: it contains the word of the bucket and ends with
  \<open>time_us\<close>.
\<close>

definition primitive_metrics :: "(string, int) dict \<Rightarrow> bool" where
  "primitive_metrics metrics =
     list_all (\<lambda>k. k \<in> set (map (info_key \<circ> snd) metric_patterns)) (map fst metrics)"

definition execute_time_key :: "string \<Rightarrow> bool" where
  "execute_time_key k = (py_in ''execute'' k \<and> suffix ''time_us'' k)"

definition finalize_time_key :: "string \<Rightarrow> bool" where
  "finalize_time_key k = (py_in ''finalize'' k \<and> suffix ''time_us'' k)"

definition deinit_time_key :: "string \<Rightarrow> bool" where
  "deinit_time_key k = (py_in ''deinit'' k \<and> suffix ''time_us'' k)"

section \<open>Example buffers\<close>

text \<open>The bytes of an ASCII text, for writing buffers down.\<close>

definition ascii :: "string \<Rightarrow> byte list" where
  "ascii s = map of_char s"

text \<open>
  The label \<open>duration\<close> at offsets 10 and 200, every other byte \<open>0xff\<close> but for the
  little-endian 500 at offset 216: no probe from offset 10 reads a value of at most
  10,000,000.
\<close>

definition label_twice :: "byte list" where
  "label_twice =
     replicate 10 255 @ ascii ''duration'' @ replicate 182 255 @ ascii ''duration''
       @ replicate 8 255 @ [244, 1, 0, 0]"

text \<open>
  The label \<open>abc\<close> at offsets 0 and 7, the second time as the last bytes of the buffer, and
  between them a run of two characters, which is too short for a label.
\<close>

definition abc_twice :: "byte list" where
  "abc_twice = ascii ''abc'' @ [0] @ ascii ''xy'' @ [255] @ ascii ''abc''"

text \<open>
  The label \<open>duration\<close> at offsets 0 and 21 and the little-endian 65536 at offset 9, which no
  probe from offset 0 reads (the deltas start at 8) and the probe from offset 21 with delta
  \<open>-12\<close> does.
\<close>

definition value_before_second :: "byte list" where
  "value_before_second =
     ascii ''duration'' @ [255, 0, 0, 1, 0] @ replicate 8 255 @ ascii ''duration''"

text \<open>One label that holds both a version text and a graph-name text.\<close>

definition version_in_graph_name :: "byte list" where
  "version_in_graph_name = ascii ''v2.35.0_quantized_htp''"

text \<open>Two version labels and three graph-name labels, the last of which is also a version.\<close>

definition several_names :: "byte list" where
  "several_names =
     ascii ''QNN v2.35.0'' @ [0] @ ascii ''net_quantized_htp'' @ [0]
       @ ascii ''net_quantized_cpu'' @ [0] @ ascii ''v2.35.0_quantized_gpu''"

text \<open>
  Three labels of the metric table in the reverse of their order in the table:
  \<open>numInferences\<close> with the value 65793 sixteen bytes on, \<open>duration\<close> with the value 65794
  sixteen bytes on, and \<open>RPC (execute) time\<close> at an offset from which no probe reads one of
  the two values.
\<close>

definition reverse_table_order :: "byte list" where
  "reverse_table_order =
     ascii ''numInferences'' @ [255, 255, 255] @ [1, 1, 1, 0]
       @ ascii ''duration'' @ replicate 8 255 @ [2, 1, 1, 0] @ [255]
       @ ascii ''RPC (execute) time''"

text \<open>A metric map with three execute times, two deinit times and no finalize time.\<close>

definition five_timings :: "(string, int) dict" where
  "five_timings =
     [(''accelerator_execute_time_us'', 80), (''qnn_execute_time_us'', 100),
      (''rpc_execute_time_us'', 7), (''qnn_deinit_time_us'', 3), (''rpc_deinit_time_us'', 4)]"

section \<open>The probe\<close>

lemma take4_drop:
  assumes "p + 4 \<le> length xs"
  shows "take 4 (drop p xs) = [xs ! p, xs ! (p + 1), xs ! (p + 2), xs ! (p + 3)]"
proof (rule nth_equalityI)
  show "length (take 4 (drop p xs)) = length [xs ! p, xs ! (p + 1), xs ! (p + 2), xs ! (p + 3)]"
    using assms by simp
next
  fix i
  assume "i < length (take 4 (drop p xs))"
  then have "i < 4" by simp
  then have "i = 0 \<or> i = 1 \<or> i = 2 \<or> i = 3" by arith
  then show "take 4 (drop p xs) ! i = [xs ! p, xs ! (p + 1), xs ! (p + 2), xs ! (p + 3)] ! i"
    using assms by (auto simp: add.commute)
qed

lemma py_slice_window:
  "0 \<le> p \<Longrightarrow> p \<le> int (length xs) - 4 \<Longrightarrow> py_slice xs p (p + 4) = take 4 (drop (nat p) xs)"
  by (auto simp: py_slice_def Let_def min_def)

lemma u32_le_at_unfold:
  "u32_le_at data pos =
     uint (data ! pos) + 256 * uint (data ! (pos + 1)) + 65536 * uint (data ! (pos + 2))
       + 16777216 * uint (data ! (pos + 3))"
proof -
  have "{..<4::nat} = {0, 1, 2, 3}" by auto
  then show ?thesis by (simp add: u32_le_at_def)
qed

lemma u32_le_at_range: "0 \<le> u32_le_at data pos \<and> u32_le_at data pos < 2 ^ 32"
proof -
  have b: "0 \<le> uint w \<and> uint w \<le> 255" for w :: byte
    using uint_bounded [of w] by simp
  show ?thesis
    unfolding u32_le_at_unfold
    using b [of "data ! pos"] b [of "data ! (pos + 1)"] b [of "data ! (pos + 2)"]
      b [of "data ! (pos + 3)"]
    by simp
qed

lemma extract_value_at_offset_probe:
  "extract_value_at_offset data position offset = Inr (probe data position offset)"
proof (cases "0 \<le> position + offset \<and> position + offset \<le> int (length data) - 4")
  case True
  then have "nat (position + offset) + 4 \<le> length data" by linarith
  from take4_drop [OF this] True show ?thesis
    by (simp add: extract_value_at_offset_def probe_def Let_def py_slice_window
        struct_unpack_I_def u32_le_at_unfold)
next
  case False
  then show ?thesis
    by (auto simp: extract_value_at_offset_def probe_def Let_def)
qed

text \<open>
  C5.  For every buffer, base and delta the probe returns normally (\<open>Inr\<close>: no exception
  leaves the function).  The result is \<open>None\<close> exactly when \<open>base + delta < 0\<close> or
  \<open>base + delta > len(data) - 4\<close>, which is every base and delta when the buffer has fewer
  than four bytes.  Otherwise the four indices read lie inside the buffer and the result is
  the unsigned 32-bit little-endian integer of the bytes there, a number from \<open>0\<close> to
  \<open>2^32 - 1\<close>.  The function is an expression of \<open>data\<close>: the buffer is only read.
\<close>

theorem extract_value_at_offset_bounds_checked:
  "extract_value_at_offset data base delta =
     Inr (if base + delta < 0 \<or> base + delta > int (length data) - 4 then None
          else Some (u32_le_at data (nat (base + delta))))
   \<and> (length data < 4 \<longrightarrow> extract_value_at_offset data base delta = Inr None)
   \<and> (\<not> (base + delta < 0 \<or> base + delta > int (length data) - 4) \<longrightarrow>
        nat (base + delta) + 3 < length data)
   \<and> 0 \<le> u32_le_at data (nat (base + delta)) \<and> u32_le_at data (nat (base + delta)) < 2 ^ 32"
proof -
  have "extract_value_at_offset data base delta = Inr (probe data base delta)"
    by (rule extract_value_at_offset_probe)
  moreover have "length data < 4 \<Longrightarrow> probe data base delta = None"
    by (auto simp: probe_def)
  moreover have "\<not> (base + delta < 0 \<or> base + delta > int (length data) - 4) \<Longrightarrow>
      nat (base + delta) + 3 < length data"
    by linarith
  ultimately show ?thesis
    using u32_le_at_range [of data "nat (base + delta)"] by (simp add: probe_def)
qed

theorem extract_value_at_offset_bounds_checked_witness:
  "extract_value_at_offset [7, 244, 1, 0, 0] 13 (-12) = Inr (Some 500)
   \<and> extract_value_at_offset [7, 244, 1, 0, 0] 0 (-12) = Inr None
   \<and> extract_value_at_offset [7, 244, 1, 0, 0] 0 16 = Inr None
   \<and> extract_value_at_offset [244, 1, 0] 0 0 = Inr None"
  using extract_value_at_offset_bounds_checked [of "[7, 244, 1, 0, 0]" 13 "-12"]
    extract_value_at_offset_bounds_checked [of "[7, 244, 1, 0, 0]" 0 "-12"]
    extract_value_at_offset_bounds_checked [of "[7, 244, 1, 0, 0]" 0 16]
    extract_value_at_offset_bounds_checked [of "[244, 1, 0]" 0 0]
  by (simp add: u32_le_at_unfold)

section \<open>The search\<close>

text \<open>
  C2.  As the claim states it, the delta sequence has 36 elements; the list of the source,
  which is the literal sequence of the claim, has 42.
\<close>

theorem search_offsets_not_36:
  "\<not> (length search_offsets = 36 \<and>
      search_offsets =
        [16, 20, 28, 36, 40, 52, 56, 64,
         -12, -16, -20, -28, -36, -40, -52, -56, -64, -68, -72, -76, -80, -84, -88, -92, -96,
         -100, 8, 12, 24, 32, 44, 48, 60, 68, 72, 76, 80, 84, 88, 92, 96, 100])"
  by (simp add: search_offsets_def)

text \<open>
  C2, amended.  The delta sequence is a fixed, ordered list of 42 signed deltas (8, then 18,
  then 16), equal element for element and in probe order to the literal sequence.
\<close>

theorem search_offsets_literal:
  "search_offsets =
     [16, 20, 28, 36, 40, 52, 56, 64,
      -12, -16, -20, -28, -36, -40, -52, -56, -64, -68, -72, -76, -80, -84, -88, -92, -96, -100,
      8, 12, 24, 32, 44, 48, 60, 68, 72, 76, 80, 84, 88, 92, 96, 100]
   \<and> length search_offsets = 42"
  by (simp add: search_offsets_def)

lemma find_append_case:
  "find P (xs @ ys) = (case find P xs of None \<Rightarrow> find P ys | Some x \<Rightarrow> Some x)"
  by (induction xs) auto

lemma find_Some_holds: "find P xs = Some x \<Longrightarrow> P x"
  by (induction xs) (auto split: if_splits)

lemma find_map_Pair:
  "find P (map (Pair p) ds) = map_option (Pair p) (find (\<lambda>d. P (p, d)) ds)"
  by (induction ds) auto

lemma offset_loop_find:
  "offset_loop data kind p ds =
     Inr (case find (\<lambda>d. accepted data kind (p, d)) ds of
            None \<Rightarrow> None
          | Some d \<Rightarrow> Some (the (probe data p d), d))"
  by (induction ds)
    (auto simp: extract_value_at_offset_probe accepted_def passes_validation_def
      split: option.splits)

lemma position_loop_find:
  "position_loop data kind ps =
     Inr (case find (accepted data kind) (List.product ps search_offsets) of
            None \<Rightarrow> None
          | Some (p, d) \<Rightarrow> Some (the (probe data p d), d))"
  by (induction ps)
    (auto simp: offset_loop_find find_append_case find_map_Pair split: option.splits)

lemma extract_metric_value_first_accepted:
  "extract_metric_value data ps info =
     Inr (case first_accepted data (info_type info) ps of
            None \<Rightarrow> (None, -1)
          | Some (p, d) \<Rightarrow> (probe data p d, d))"
  by (auto simp: extract_metric_value_def position_loop_find first_accepted_def Let_def
      accepted_def split: option.splits dest!: find_Some_holds)

text \<open>
  C1.  The search of \<^verbatim>\<open>extract_metric_value\<close> returns what the first pair does, in the
  order of \<open>List.product occurrences search_offsets\<close> (occurrences in the order given,
  outer; the deltas in their listed order, inner), whose probed value passes the validation
  of the metric's kind: the value read at that pair, with its delta.  No later pair has any
  influence, and \<^verbatim>\<open>(None, -1)\<close> is returned when no pair qualifies.  In particular, with
  two occurrences, the first of which has no accepted delta, the result is the one of the
  first accepted delta at the second occurrence.
\<close>

theorem extract_metric_value_nested_order:
  "extract_metric_value data occurrences info =
     Inr (case find (accepted data (info_type info)) (List.product occurrences search_offsets) of
            None \<Rightarrow> (None, -1)
          | Some (p, d) \<Rightarrow> (probe data p d, d))
   \<and> ((\<forall>d \<in> set search_offsets. \<not> accepted data (info_type info) (p1, d)) \<longrightarrow>
        extract_metric_value data [p1, p2] info =
          Inr (case find (\<lambda>d. accepted data (info_type info) (p2, d)) search_offsets of
                 None \<Rightarrow> (None, -1)
               | Some d \<Rightarrow> (probe data p2 d, d)))"
proof -
  have first: "extract_metric_value data ps info =
      Inr (case find (accepted data (info_type info)) (List.product ps search_offsets) of
             None \<Rightarrow> (None, -1)
           | Some (p, d) \<Rightarrow> (probe data p d, d))" for ps
    using extract_metric_value_first_accepted [of data ps info]
    by (simp add: first_accepted_def)
  have second: "extract_metric_value data [p1, p2] info =
      Inr (case find (\<lambda>d. accepted data (info_type info) (p2, d)) search_offsets of
             None \<Rightarrow> (None, -1)
           | Some d \<Rightarrow> (probe data p2 d, d))"
    if none: "\<forall>d \<in> set search_offsets. \<not> accepted data (info_type info) (p1, d)"
  proof -
    from none have "find (\<lambda>d. accepted data (info_type info) (p1, d)) search_offsets = None"
      by (simp add: find_None_iff)
    then show ?thesis
      by (simp add: first find_append_case find_map_Pair split: option.splits)
  qed
  from first [of occurrences] second show ?thesis by blast
qed

theorem extract_metric_value_nested_order_witness:
  "extract_metric_value label_twice [10, 200] (timing_us ''duration_us'') = Inr (Some 500, 16)
   \<and> probe label_twice 200 16 = Some 500
   \<and> find (accepted label_twice ''timing'') (List.product [10] search_offsets) = None"
proof -
  have a: "find (accepted label_twice ''timing'') (List.product [10, 200] search_offsets)
      = Some (200, 16)"
    by code_simp
  have b: "probe label_twice 200 16 = Some 500"
    by code_simp
  have c: "find (accepted label_twice ''timing'') (List.product [10] search_offsets) = None"
    by code_simp
  have d: "info_type (timing_us ''duration_us'') = ''timing''"
    by (simp add: timing_us_def)
  note t = extract_metric_value_nested_order
    [of label_twice "[10, 200]" "timing_us ''duration_us''" 10 200, unfolded d a]
  from t have e: "extract_metric_value label_twice [10, 200] (timing_us ''duration_us'')
      = Inr (Some 500, 16)"
    by (simp add: b)
  from e b c show ?thesis by (intro conjI)
qed

text \<open>
  C3.  When the probe of a candidate returns the value \<open>v\<close>, the search for a counter stops
  there with \<open>v\<close> if \<open>v \<le> 1,000,000\<close> and goes on with the remaining candidates otherwise;
  for a timing the bound is 10,000,000.  Nothing else is tested, so every value up to the
  bound, zero included, is accepted.
\<close>

theorem validation_bounds:
  "extract_value_at_offset data p d = Inr (Some v) \<Longrightarrow>
     offset_loop data ''counter'' p (d # ds) =
       (if v \<le> 1000000 then Inr (Some (v, d)) else offset_loop data ''counter'' p ds)
     \<and> offset_loop data ''timing'' p (d # ds) =
       (if v \<le> 10000000 then Inr (Some (v, d)) else offset_loop data ''timing'' p ds)"
  by simp

theorem validation_bounds_witness:
  "offset_loop [64, 66, 15, 0, 0, 0, 0, 0] ''counter'' 0 [0, 4] = Inr (Some (1000000, 0))
   \<and> offset_loop [65, 66, 15, 0, 0, 0, 0, 0] ''counter'' 0 [0, 4] = Inr (Some (0, 4))
   \<and> offset_loop [128, 150, 152, 0, 0, 0, 0, 0] ''timing'' 0 [0, 4] = Inr (Some (10000000, 0))
   \<and> offset_loop [129, 150, 152, 0, 0, 0, 0, 0] ''timing'' 0 [0, 4] = Inr (Some (0, 4))"
proof -
  have p1: "extract_value_at_offset [64, 66, 15, 0, 0, 0, 0, 0] 0 0 = Inr (Some 1000000)"
    by code_simp
  have p2: "extract_value_at_offset [65, 66, 15, 0, 0, 0, 0, 0] 0 0 = Inr (Some 1000001)"
    by code_simp
  have p3: "extract_value_at_offset [128, 150, 152, 0, 0, 0, 0, 0] 0 0 = Inr (Some 10000000)"
    by code_simp
  have p4: "extract_value_at_offset [129, 150, 152, 0, 0, 0, 0, 0] 0 0 = Inr (Some 10000001)"
    by code_simp
  have q: "extract_value_at_offset [b0, b1, b2, 0, 0, 0, 0, 0] 0 4 = Inr (Some 0)" for b0 b1 b2
    by (simp add: extract_value_at_offset_probe probe_def u32_le_at_unfold)
  from validation_bounds [OF p1, of "[4]"] validation_bounds [OF p2, of "[4]"]
    validation_bounds [OF p3, of "[4]"] validation_bounds [OF p4, of "[4]"]
  show ?thesis by (simp add: q)
qed

section \<open>The label scan\<close>

lemma record_string_map_of:
  "map_of (record_string sp l p) =
     (map_of sp)(l \<mapsto> (case map_of sp l of None \<Rightarrow> [] | Some ps \<Rightarrow> ps) @ [p])"
  by (auto simp: record_string_def Let_def update_conv' split: option.splits)

lemma record_string_distinct:
  "distinct (map fst sp) \<Longrightarrow> distinct (map fst (record_string sp l p))"
  by (auto simp: record_string_def Let_def distinct_update split: option.splits)

lemma list_all_entries:
  "distinct (map fst sp) \<Longrightarrow>
     list_all (\<lambda>(l, offs). P l offs) sp \<longleftrightarrow> (\<forall>l offs. map_of sp l = Some offs \<longrightarrow> P l offs)"
  by (auto simp: list_all_iff dest: map_of_SomeD)

lemma chr_printable: "32 \<le> b \<Longrightarrow> b \<le> 126 \<Longrightarrow> printable (chr b)"
  by (simp add: printable_def chr_def word_le_nat_alt)

lemma occurs_at_append: "occurs_at seen l off \<Longrightarrow> occurs_at (seen @ ys) l off"
  by (auto simp: occurs_at_def)

lemma entry_ok_mono:
  "entry_ok seen b l offs \<Longrightarrow> b \<le> b' \<Longrightarrow> entry_ok (seen @ ys) b' l offs"
  by (auto simp: entry_ok_def list_all_iff occurs_at_append)

lemma scan_inv_printable:
  assumes inv: "scan_inv seen sp cur start" and b: "32 \<le> b" "b \<le> 126"
  shows "scan_inv (seen @ [b]) sp (cur @ [chr b]) (if cur = [] then int (length seen) else start)"
proof -
  from inv have len: "length cur \<le> length seen" by (simp add: scan_inv_def)
  then have d: "drop (length (seen @ [b]) - length (cur @ [chr b])) (seen @ [b])
      = drop (length seen - length cur) seen @ [b]"
    by simp
  have bound: "length (seen @ [b]) - length (cur @ [chr b]) = length seen - length cur"
    by simp
  from inv have entries: "list_all (\<lambda>(label, offsets).
      entry_ok (seen @ [b]) (length seen - length cur) label offsets) sp"
    by (auto simp: scan_inv_def list_all_iff intro: entry_ok_mono)
  show ?thesis
    unfolding scan_inv_def d bound
    using inv b len entries by (auto simp: scan_inv_def)
qed

lemma run_occurs:
  assumes "length cur \<le> length seen" "cur = map chr (drop (length seen - length cur) seen)"
  shows "occurs_at (seen @ ys) cur (int (length seen) - int (length cur))"
proof -
  have "nat (int (length seen) - int (length cur)) = length seen - length cur"
    using assms(1) by simp
  moreover have "take (length cur) (drop (length seen - length cur) (seen @ ys))
      = drop (length seen - length cur) seen"
    using assms(1) by simp
  ultimately show ?thesis
    using assms by (simp add: occurs_at_def)
qed

lemma entry_ok_record:
  assumes inv: "scan_inv seen sp cur start" and long: "3 \<le> length cur"
    and ext: "length seen \<le> bound"
  shows "entry_ok (seen @ ys) bound cur
           ((case map_of sp cur of None \<Rightarrow> [] | Some ps \<Rightarrow> ps) @ [start])"
proof -
  from long have ne: "cur \<noteq> []" by auto
  with inv have start: "start = int (length seen) - int (length cur)"
    by (simp add: scan_inv_def)
  from inv have len: "length cur \<le> length seen"
    and cur: "cur = map chr (drop (length seen - length cur) seen)"
    and bytes: "list_all (\<lambda>b. 32 \<le> b \<and> b \<le> 126) (drop (length seen - length cur) seen)"
    and dist: "distinct (map fst sp)"
    and entries: "list_all (\<lambda>(label, offsets).
            entry_ok seen (length seen - length cur) label offsets) sp"
    by (simp_all add: scan_inv_def)
  have pr: "list_all printable cur"
    by (subst cur) (use bytes in \<open>auto simp: list_all_iff chr_printable\<close>)
  have occ: "occurs_at (seen @ ys) cur start"
    unfolding start by (rule run_occurs [OF len cur])
  have here: "nat start + length cur \<le> bound"
    using len ext by (simp add: start)
  show ?thesis
  proof (cases "map_of sp cur")
    case None
    then show ?thesis
      using long pr occ here by (simp add: entry_ok_def)
  next
    case (Some ps)
    with entries dist have old: "entry_ok seen (length seen - length cur) cur ps"
      by (auto simp: list_all_iff dest: map_of_SomeD)
    then have before: "\<forall>off \<in> set ps. off < start"
      using long len by (auto simp: entry_ok_def list_all_iff start occurs_at_def)
    from old have "entry_ok (seen @ ys) bound cur ps"
      by (rule entry_ok_mono) (use ext in simp)
    then show ?thesis
      using Some long pr occ here before
      by (auto simp: entry_ok_def sorted_wrt_append)
  qed
qed

lemma entries_record:
  assumes inv: "scan_inv seen sp cur start" and ext: "length seen \<le> bound"
  shows "list_all (\<lambda>(label, offsets). entry_ok (seen @ ys) bound label offsets)
           (if 3 \<le> length cur then record_string sp cur start else sp)"
proof -
  from inv have dist: "distinct (map fst sp)"
    and entries: "list_all (\<lambda>(label, offsets).
            entry_ok seen (length seen - length cur) label offsets) sp"
    by (simp_all add: scan_inv_def)
  have old: "entry_ok (seen @ ys) bound l offs" if "map_of sp l = Some offs" for l offs
  proof -
    from that entries have "entry_ok seen (length seen - length cur) l offs"
      by (auto simp: list_all_iff dest: map_of_SomeD)
    then show ?thesis by (rule entry_ok_mono) (use ext in simp)
  qed
  show ?thesis
  proof (cases "3 \<le> length cur")
    case True
    have "entry_ok (seen @ ys) bound l offs"
      if "map_of (record_string sp cur start) l = Some offs" for l offs
      using that entry_ok_record [OF inv True ext, of ys] old
      by (auto simp: record_string_map_of split: if_splits)
    then show ?thesis
      using True by (simp add: list_all_entries [OF record_string_distinct [OF dist]])
  next
    case False
    then show ?thesis
      using old by (simp add: list_all_entries [OF dist])
  qed
qed

lemma scan_inv_break:
  assumes inv: "scan_inv seen sp cur start"
  shows "scan_inv (seen @ [b]) (if 3 \<le> length cur then record_string sp cur start else sp) [] start"
proof -
  from inv have dist: "distinct (map fst sp)" by (simp add: scan_inv_def)
  have "list_all (\<lambda>(label, offsets). entry_ok (seen @ [b]) (length (seen @ [b])) label offsets)
           (if 3 \<le> length cur then record_string sp cur start else sp)"
    by (rule entries_record [OF inv]) simp
  then show ?thesis
    using dist by (simp add: scan_inv_def record_string_distinct)
qed

lemma scan_loop_inv:
  "scan_inv seen sp cur start \<Longrightarrow> i = int (length seen) \<Longrightarrow>
   scan_loop sp cur start i rest = (sp', cur', start') \<Longrightarrow>
   scan_inv (seen @ rest) sp' cur' start'"
proof (induction rest arbitrary: seen sp cur start i)
  case Nil
  then show ?case by simp
next
  case (Cons b rest)
  show ?case
  proof (cases "32 \<le> b \<and> b \<le> 126")
    case True
    with Cons.prems have run: "scan_loop sp (cur @ [chr b])
        (if cur = [] then int (length seen) else start) (int (length (seen @ [b]))) rest
        = (sp', cur', start')"
      by (simp add: add.commute)
    from Cons.prems(1) True have "scan_inv (seen @ [b]) sp (cur @ [chr b])
        (if cur = [] then int (length seen) else start)"
      by (intro scan_inv_printable) auto
    from Cons.IH [OF this refl run] show ?thesis by simp
  next
    case False
    with Cons.prems have run: "scan_loop (if 3 \<le> length cur then record_string sp cur start else sp)
        [] start (int (length (seen @ [b]))) rest = (sp', cur', start')"
      by (auto simp add: add.commute)
    from Cons.IH [OF scan_inv_break [OF Cons.prems(1)] refl run] show ?thesis by simp
  qed
qed

lemma scan_inv_init: "scan_inv [] [] [] 0"
  by (simp add: scan_inv_def)

lemma extract_strings_and_positions_entries:
  "distinct (map fst (extract_strings_and_positions data))
   \<and> list_all (\<lambda>(label, offsets). entry_ok data (length data) label offsets)
       (extract_strings_and_positions data)"
proof -
  obtain sp cur start where run: "scan_loop [] [] 0 0 data = (sp, cur, start)"
    by (cases "scan_loop [] [] 0 0 data") auto
  from scan_loop_inv [OF scan_inv_init _ run] have inv: "scan_inv data sp cur start"
    by simp
  then have dist: "distinct (map fst sp)" by (simp add: scan_inv_def)
  have "list_all (\<lambda>(label, offsets). entry_ok (data @ []) (length data) label offsets)
           (if 3 \<le> length cur then record_string sp cur start else sp)"
    by (rule entries_record [OF inv]) simp
  then show ?thesis
    using run dist by (simp add: extract_strings_and_positions_def record_string_distinct)
qed

lemma scan_loop_append:
  "scan_loop sp cur start i (xs @ ys) =
     (case scan_loop sp cur start i xs of
        (sp', cur', start') \<Rightarrow> scan_loop sp' cur' start' (i + int (length xs)) ys)"
  by (induction xs arbitrary: sp cur start i) (auto simp: add.assoc)

lemma scan_loop_run:
  "list_all (\<lambda>b. 32 \<le> b \<and> b \<le> 126) run \<Longrightarrow>
     scan_loop sp cur start i run =
       (sp, cur @ map chr run, if cur = [] \<and> run \<noteq> [] then i else start)"
  by (induction run arbitrary: cur start i) auto

lemma scan_loop_after_break:
  assumes "pre = [] \<or> \<not> (32 \<le> last pre \<and> last pre \<le> 126)"
  shows "fst (snd (scan_loop [] [] 0 0 pre)) = []"
proof (cases pre rule: rev_cases)
  case Nil
  then show ?thesis by simp
next
  case (snoc xs b)
  with assms have "\<not> (32 \<le> b \<and> b \<le> 126)" by simp
  then show ?thesis
    unfolding snoc scan_loop_append
    by (cases "scan_loop [] [] 0 0 xs") auto
qed

lemma final_run_recorded:
  assumes brk: "pre = [] \<or> \<not> (32 \<le> last pre \<and> last pre \<le> 126)"
    and run: "list_all (\<lambda>b. 32 \<le> b \<and> b \<le> 126) run" and long: "3 \<le> length run"
  shows "\<exists>offsets. map_of (extract_strings_and_positions (pre @ run)) (map chr run)
            = Some (offsets @ [int (length pre)])"
proof -
  obtain sp cur start where s: "scan_loop [] [] 0 0 pre = (sp, cur, start)"
    by (cases "scan_loop [] [] 0 0 pre") auto
  with scan_loop_after_break [OF brk] have cur: "cur = []" by simp
  from long have ne: "run \<noteq> []" by auto
  have "scan_loop [] [] 0 0 (pre @ run) = (sp, map chr run, int (length pre))"
    using s cur ne by (simp add: scan_loop_append scan_loop_run [OF run])
  then show ?thesis
    using long by (simp add: extract_strings_and_positions_def record_string_map_of)
qed

text \<open>
  C4.  For every buffer the scan returns a map (no label twice) in which every label is
  printable ASCII of at least three characters, and every list of offsets is non-empty,
  strictly ascending, and holds only start indices at which the characters of the label
  stand in the buffer.  A printable run of at least three bytes that is the end of the
  buffer, after a non-printable byte or from the start of the buffer on, is a label of the
  map, and its start is the last offset of that label.
\<close>

theorem extract_strings_and_positions_sound:
  "distinct (map fst (extract_strings_and_positions data))
   \<and> (\<forall>(label, offsets) \<in> set (extract_strings_and_positions data).
         3 \<le> length label \<and> list_all printable label
         \<and> offsets \<noteq> [] \<and> sorted_wrt (<) offsets
         \<and> (\<forall>off \<in> set offsets.
               0 \<le> off \<and> nat off + length label \<le> length data
               \<and> map chr (take (length label) (drop (nat off) data)) = label))
   \<and> (data = pre @ run \<and> (pre = [] \<or> \<not> (32 \<le> last pre \<and> last pre \<le> 126))
        \<and> list_all (\<lambda>b. 32 \<le> b \<and> b \<le> 126) run \<and> 3 \<le> length run \<longrightarrow>
        (\<exists>offsets. map_of (extract_strings_and_positions data) (map chr run)
            = Some (offsets @ [int (length pre)])))"
proof (intro conjI)
  show "distinct (map fst (extract_strings_and_positions data))"
    using extract_strings_and_positions_entries [of data] by simp
  show "\<forall>(label, offsets) \<in> set (extract_strings_and_positions data).
         3 \<le> length label \<and> list_all printable label
         \<and> offsets \<noteq> [] \<and> sorted_wrt (<) offsets
         \<and> (\<forall>off \<in> set offsets.
               0 \<le> off \<and> nat off + length label \<le> length data
               \<and> map chr (take (length label) (drop (nat off) data)) = label)"
    using extract_strings_and_positions_entries [of data]
    by (auto simp: list_all_iff entry_ok_def occurs_at_def)
  show "data = pre @ run \<and> (pre = [] \<or> \<not> (32 \<le> last pre \<and> last pre \<le> 126))
        \<and> list_all (\<lambda>b. 32 \<le> b \<and> b \<le> 126) run \<and> 3 \<le> length run \<longrightarrow>
        (\<exists>offsets. map_of (extract_strings_and_positions data) (map chr run)
            = Some (offsets @ [int (length pre)]))"
    using final_run_recorded [of pre run] by blast
qed

theorem extract_strings_and_positions_sound_witness:
  "extract_strings_and_positions abc_twice = [(''abc'', [0, 7])]
   \<and> map chr (take 3 (drop 7 abc_twice)) = ''abc''
   \<and> (\<exists>offsets. map_of (extract_strings_and_positions abc_twice) ''abc'' = Some (offsets @ [7]))"
proof -
  have v: "extract_strings_and_positions abc_twice = [(''abc'', [0, 7])]"
    by code_simp
  have run: "map chr (ascii ''abc'') = ''abc''"
    by code_simp
  note t = extract_strings_and_positions_sound
    [of abc_twice "ascii ''abc'' @ [0] @ ascii ''xy'' @ [255]" "ascii ''abc''"]
  from t have "\<forall>off \<in> set [0, 7 :: int].
      map chr (take (length ''abc'') (drop (nat off) abc_twice)) = ''abc''"
    unfolding v by simp
  then have occ: "map chr (take 3 (drop 7 abc_twice)) = ''abc''"
    by (simp add: numeral_3_eq_3)
  have "\<exists>offsets. map_of (extract_strings_and_positions abc_twice) (map chr (ascii ''abc''))
      = Some (offsets @ [int (length (ascii ''abc'' @ [0] @ ascii ''xy'' @ [255]))])"
    by (rule t [THEN conjunct2, THEN conjunct2, rule_format])
      (simp add: abc_twice_def ascii_def)
  then have last: "\<exists>offsets. map_of (extract_strings_and_positions abc_twice) ''abc''
      = Some (offsets @ [7])"
    unfolding run by (simp add: ascii_def)
  from v occ last show ?thesis by (intro conjI)
qed

section \<open>The report of a parse\<close>

lemma find_Some_set: "find P xs = Some x \<Longrightarrow> x \<in> set xs"
  by (induction xs) (auto split: if_splits)

lemma first_accepted_SomeD:
  assumes "first_accepted data kind positions = Some (p, d)"
  shows "p \<in> set positions \<and> d \<in> set search_offsets \<and> accepted data kind (p, d)"
proof -
  from assms have "(p, d) \<in> set (List.product positions search_offsets)"
    unfolding first_accepted_def by (rule find_Some_set)
  moreover from assms have "accepted data kind (p, d)"
    unfolding first_accepted_def by (rule find_Some_holds)
  ultimately show ?thesis by auto
qed

lemma accepted_probe:
  "accepted data kind (p, d) \<Longrightarrow>
     \<exists>v. probe data p d = Some v \<and> passes_validation kind v
         \<and> 0 \<le> p + d \<and> p + d \<le> int (length data) - 4"
  by (auto simp: accepted_def probe_def split: option.splits if_splits)

lemma metrics_loop_Cons:
  "metrics_loop data sp ((name, info) # items) r c =
     (case map_of sp name of
        None \<Rightarrow> metrics_loop data sp items r c
      | Some positions \<Rightarrow>
          (case first_accepted data (info_type info) positions of
             None \<Rightarrow>
               metrics_loop data sp items
                 (r\<lparr>extraction_info := (extraction_info r)
                      \<lparr>failed_extractions := failed_extractions (extraction_info r) @ [name]\<rparr>\<rparr>) c
           | Some (p, d) \<Rightarrow>
               metrics_loop data sp items
                 (r\<lparr>metrics_dict := AList.update (info_key info) (the (probe data p d)) (metrics_dict r),
                    raw_extraction_details := raw_extraction_details r @
                      [\<lparr>detail_pattern = name, detail_key = info_key info,
                        detail_value = the (probe data p d),
                        detail_string_position = ''0x'' @ format_04x (hd positions),
                        detail_offset_used = d,
                        detail_extraction_position = ''0x'' @ format_04x (hd positions + d),
                        detail_unit = info_unit info, detail_type = info_type info\<rparr>]\<rparr>)
                 (c + 1)))"
proof (cases "map_of sp name")
  case None
  then show ?thesis by simp
next
  case (Some positions)
  note found = Some
  show ?thesis
  proof (cases "first_accepted data (info_type info) positions")
    case None
    with found show ?thesis
      by (simp add: extract_metric_value_first_accepted)
  next
    case (Some pd)
    obtain p d where pd: "pd = (p, d)" by (cases pd)
    from first_accepted_SomeD [OF Some [unfolded pd]] have acc: "accepted data (info_type info) (p, d)"
      and mem: "p \<in> set positions" by auto
    from accepted_probe [OF acc] obtain v where v: "probe data p d = Some v" by auto
    from mem obtain q qs where ps: "positions = q # qs" by (cases positions) auto
    show ?thesis
      using found Some pd v ps
      by (simp add: extract_metric_value_first_accepted)
  qed
qed

lemma metrics_loop_total: "\<exists>r' c'. metrics_loop data sp items r c = Inr (r', c')"
proof (induction items arbitrary: r c)
  case Nil
  show ?case by simp
next
  case (Cons entry items)
  obtain name info where entry: "entry = (name, info)" by (cases entry)
  show ?case
    unfolding entry metrics_loop_Cons
    by (auto split: option.splits intro: Cons.IH)
qed

lemma metrics_loop_file_info:
  "metrics_loop data sp items r c = Inr (r', c') \<Longrightarrow> file_info r' = file_info r"
proof (induction items arbitrary: r c)
  case Nil
  then show ?case by simp
next
  case (Cons entry items)
  obtain name info where entry: "entry = (name, info)" by (cases entry)
  from Cons.prems show ?case
    unfolding entry metrics_loop_Cons
    by (auto split: option.splits dest!: Cons.IH)
qed

lemma metrics_loop_patterns:
  "metrics_loop data sp items r c = Inr (r', c') \<Longrightarrow>
     map detail_pattern (raw_extraction_details r') =
       map detail_pattern (raw_extraction_details r) @ map fst (filter (succeeded data sp) items)"
proof (induction items arbitrary: r c)
  case Nil
  then show ?case by simp
next
  case (Cons entry items)
  obtain name info where entry: "entry = (name, info)" by (cases entry)
  from Cons.prems show ?case
    unfolding entry metrics_loop_Cons
    by (auto split: option.splits dest!: Cons.IH simp: succeeded_def)
qed

lemma metrics_loop_failed:
  "metrics_loop data sp items r c = Inr (r', c') \<Longrightarrow>
     failed_extractions (extraction_info r') =
       failed_extractions (extraction_info r) @ map fst (filter (found_but_failed data sp) items)"
proof (induction items arbitrary: r c)
  case Nil
  then show ?case by simp
next
  case (Cons entry items)
  obtain name info where entry: "entry = (name, info)" by (cases entry)
  from Cons.prems show ?case
    unfolding entry metrics_loop_Cons
    by (auto split: option.splits dest!: Cons.IH simp: found_but_failed_def)
qed

lemma metrics_loop_keys:
  "metrics_loop data sp items r c = Inr (r', c') \<Longrightarrow>
   distinct (map fst (metrics_dict r) @ map (info_key \<circ> snd) items) \<Longrightarrow>
     map fst (metrics_dict r') =
       map fst (metrics_dict r) @ map (info_key \<circ> snd) (filter (succeeded data sp) items)"
proof (induction items arbitrary: r c)
  case Nil
  then show ?case by simp
next
  case (Cons entry items)
  obtain name info where entry: "entry = (name, info)" by (cases entry)
  from Cons.prems show ?case
    unfolding entry metrics_loop_Cons
    by (auto split: option.splits dest!: Cons.IH simp: succeeded_def update_keys)
qed

lemma metrics_loop_details:
  "metrics_loop data sp items r c = Inr (r', c') \<Longrightarrow>
   list_all (detail_sound data sp) (raw_extraction_details r) \<Longrightarrow>
     list_all (detail_sound data sp) (raw_extraction_details r')"
proof (induction items arbitrary: r c)
  case Nil
  then show ?case by simp
next
  case (Cons entry items)
  obtain name info where entry: "entry = (name, info)" by (cases entry)
  show ?case
  proof (cases "map_of sp name")
    case None
    with Cons.prems show ?thesis
      unfolding entry metrics_loop_Cons by (auto dest!: Cons.IH)
  next
    case (Some positions)
    note found = Some
    show ?thesis
    proof (cases "first_accepted data (info_type info) positions")
      case None
      with found Cons.prems show ?thesis
        unfolding entry metrics_loop_Cons by (auto dest!: Cons.IH)
    next
      case (Some pd)
      obtain p d where pd: "pd = (p, d)" by (cases pd)
      from first_accepted_SomeD [OF Some [unfolded pd]]
      have acc: "accepted data (info_type info) (p, d)" and mem: "p \<in> set positions" by auto
      from accepted_probe [OF acc] obtain v where v: "probe data p d = Some v"
        and range: "0 \<le> p + d" "p + d \<le> int (length data) - 4" by auto
      from mem have ne: "positions \<noteq> []" by auto
      have "detail_sound data sp
          \<lparr>detail_pattern = name, detail_key = info_key info,
            detail_value = the (probe data p d),
            detail_string_position = ''0x'' @ format_04x (hd positions),
            detail_offset_used = d,
            detail_extraction_position = ''0x'' @ format_04x (hd positions + d),
            detail_unit = info_unit info, detail_type = info_type info\<rparr>"
        using found Some pd mem v range ne by (simp add: detail_sound_def)
      with found Some pd Cons.prems show ?thesis
        unfolding entry metrics_loop_Cons by (auto dest!: Cons.IH)
    qed
  qed
qed

lemma version_graph_loop_other:
  "extraction_info (version_graph_loop items r) = extraction_info r
   \<and> metrics_dict (version_graph_loop items r) = metrics_dict r
   \<and> raw_extraction_details (version_graph_loop items r) = raw_extraction_details r"
  by (induction items r rule: version_graph_loop.induct) auto

lemma is_version_eq: "is_version = py_in ''v2.35.0''"
  by (rule ext) (simp add: is_version_def)

lemma is_graph_eq:
  "is_graph = (\<lambda>s. py_in ''_quantized_htp'' s \<or> py_in ''_quantized_cpu'' s \<or> py_in ''_quantized_gpu'' s)"
  by (rule ext) (simp add: is_graph_def)

lemma version_graph_loop_version:
  "backend_version (file_info (version_graph_loop items r)) =
     (if filter is_version (map fst items) = [] then backend_version (file_info r)
      else last (filter is_version (map fst items)))"
  by (induction items r rule: version_graph_loop.induct) (auto simp: is_version_eq)

lemma version_graph_loop_graph:
  "graph_name (file_info (version_graph_loop items r)) =
     (if filter (\<lambda>s. \<not> is_version s \<and> is_graph s) (map fst items) = []
      then graph_name (file_info r)
      else last (filter (\<lambda>s. \<not> is_version s \<and> is_graph s) (map fst items)))"
  by (induction items r rule: version_graph_loop.induct) (auto simp: is_version_eq is_graph_eq)

lemma py_in_sublist: "py_in sub s = sublist sub s"
  by (induction s) (auto simp: sublist_Cons_right)

lemma metric_keys_distinct: "distinct (map (info_key \<circ> snd) metric_patterns)"
  by (simp add: metric_patterns_def timing_us_def counter_def)

lemma parse_file_shape:
  "\<exists>r c. metrics_loop data (extract_strings_and_positions data) metric_patterns
            (initial_results file_path data) 0 = Inr (r, c)
     \<and> parse_file file_path data =
         Inr (r\<lparr>extraction_info := (extraction_info r)\<lparr>metrics_extracted := c\<rparr>\<rparr>)"
proof -
  from metrics_loop_total obtain r c where
    "metrics_loop data (extract_strings_and_positions data) metric_patterns
            (initial_results file_path data) 0 = Inr (r, c)"
    by blast
  then show ?thesis
    by (simp add: parse_file_def Let_def initial_results_def)
qed

lemma hex_digit_value_digit: "d < 16 \<Longrightarrow> hex_digit_value (hex_digit d) = d"
proof -
  assume "d < 16"
  then have "d = 0 \<or> d = 1 \<or> d = 2 \<or> d = 3 \<or> d = 4 \<or> d = 5 \<or> d = 6 \<or> d = 7 \<or> d = 8
      \<or> d = 9 \<or> d = 10 \<or> d = 11 \<or> d = 12 \<or> d = 13 \<or> d = 14 \<or> d = 15"
    by arith
  then show ?thesis
    by (auto simp: hex_digit_value_def hex_digit_def)
qed

lemma hex_digit_not_minus: "d < 16 \<Longrightarrow> hex_digit d \<noteq> CHR ''-''"
proof -
  assume "d < 16"
  then have "d = 0 \<or> d = 1 \<or> d = 2 \<or> d = 3 \<or> d = 4 \<or> d = 5 \<or> d = 6 \<or> d = 7 \<or> d = 8
      \<or> d = 9 \<or> d = 10 \<or> d = 11 \<or> d = 12 \<or> d = 13 \<or> d = 14 \<or> d = 15"
    by arith
  then show ?thesis
    by (auto simp: hex_digit_def)
qed

lemma hex_value_snoc: "hex_value (s @ [c]) = 16 * hex_value s + hex_digit_value c"
  by (simp add: hex_value_def)

lemma hex_value_digits: "hex_value (hex_digits n) = n"
proof (induction n rule: hex_digits.induct)
  case (1 n)
  show ?case
  proof (cases "n < 16")
    case True
    then show ?thesis
      by (subst hex_digits.simps) (simp add: hex_value_def hex_digit_value_digit)
  next
    case False
    with 1 have "hex_value (hex_digits (n div 16)) = n div 16" by simp
    with False show ?thesis
      by (subst hex_digits.simps) (simp add: hex_value_snoc hex_digit_value_digit)
  qed
qed

lemma hex_value_zeros: "hex_value (replicate k (CHR ''0'') @ s) = hex_value s"
proof -
  have "foldl (\<lambda>a c. 16 * a + hex_digit_value c) 0 (replicate k (CHR ''0'')) = 0"
    by (induction k) (simp_all add: hex_digit_value_def)
  then show ?thesis by (simp add: hex_value_def)
qed

lemma hex_digits_nonempty: "hex_digits n \<noteq> []"
  by (subst hex_digits.simps) simp

lemma hex_digits_hd: "hd (hex_digits n) \<noteq> CHR ''-''"
proof (induction n rule: hex_digits.induct)
  case (1 n)
  show ?case
  proof (cases "n < 16")
    case True
    then show ?thesis
      by (subst hex_digits.simps) (simp add: hex_digit_not_minus)
  next
    case False
    with 1 have "hd (hex_digits (n div 16)) \<noteq> CHR ''-''" by simp
    with False show ?thesis
      by (subst hex_digits.simps) (simp add: hex_digits_nonempty)
  qed
qed

lemma parse_0x_format: "parse_0x (''0x'' @ format_04x n) = n"
proof (cases "n < 0")
  case True
  then show ?thesis
    by (simp add: parse_0x_def format_04x_def Let_def hex_value_zeros hex_value_digits)
next
  case False
  define s where "s = replicate (4 - length (hex_digits (nat \<bar>n\<bar>))) (CHR ''0'') @ hex_digits (nat \<bar>n\<bar>)"
  have ne: "s \<noteq> []" by (simp add: s_def hex_digits_nonempty)
  have hd: "hd s \<noteq> CHR ''-''"
    using hex_digits_hd [of "nat \<bar>n\<bar>"]
    by (cases "4 - length (hex_digits (nat \<bar>n\<bar>))") (simp_all add: s_def hex_digits_nonempty)
  have v: "hex_value s = nat \<bar>n\<bar>"
    by (simp add: s_def hex_value_zeros hex_value_digits)
  from ne obtain c cs where s: "s = c # cs" by (cases s) auto
  with hd have "c \<noteq> CHR ''-''" by simp
  then have "parse_0x (''0x'' @ s) = int (hex_value s)"
    by (simp add: parse_0x_def s)
  with v False show ?thesis
    by (simp add: format_04x_def Let_def s_def)
qed

lemma initial_results_empty:
  "raw_extraction_details (initial_results file_path data) = []
   \<and> metrics_dict (initial_results file_path data) = []
   \<and> failed_extractions (extraction_info (initial_results file_path data)) = []"
  by (simp add: initial_results_def version_graph_loop_other)

lemma parse_file_result:
  obtains r c where
    "metrics_loop data (extract_strings_and_positions data) metric_patterns
       (initial_results file_path data) 0 = Inr (r, c)"
    "parse_file file_path data =
       Inr (r\<lparr>extraction_info := (extraction_info r)\<lparr>metrics_extracted := c\<rparr>\<rparr>)"
  using parse_file_shape [of data file_path] by blast

text \<open>
  C7.  As the claim states it, a label is tested for the graph name independently of the
  test for the version.  The buffer that is the one label \<open>v2.35.0_quantized_htp\<close> has a
  label that contains \<open>_quantized_htp\<close>, and the report has no graph name.
\<close>

theorem graph_name_not_independent:
  "extract_strings_and_positions version_in_graph_name = [(''v2.35.0_quantized_htp'', [0])]
   \<and> py_in ''_quantized_htp'' ''v2.35.0_quantized_htp''
   \<and> parse_file ''log'' version_in_graph_name =
       Inr \<lparr>file_info =
              \<lparr>path = ''log'', size_bytes = 21,
               backend_version = ''v2.35.0_quantized_htp'', graph_name = []\<rparr>,
            extraction_info =
              \<lparr>strings_found = 1, metrics_extracted = 0, failed_extractions = []\<rparr>,
            metrics_dict = [], raw_extraction_details = []\<rparr>"
  by code_simp

text \<open>
  C7, amended.  Every parse returns a report.  Its backend version is the last label, in the
  iteration order of the label map, that contains \<open>v2.35.0\<close>; its graph name is the last
  label that does not contain \<open>v2.35.0\<close> and contains one of \<open>_quantized_htp\<close>,
  \<open>_quantized_cpu\<close>, \<open>_quantized_gpu\<close> (the second test is the \<^verbatim>\<open>elif\<close> of the first);
  a field without such a label is the empty string.  Containing is literal: the text occurs
  in the label as a contiguous block.
\<close>

theorem parse_file_version_and_graph:
  "(\<exists>r. parse_file file_path data = Inr r
      \<and> backend_version (file_info r) =
          last_or_empty (filter is_version (map fst (extract_strings_and_positions data)))
      \<and> graph_name (file_info r) =
          last_or_empty (filter (\<lambda>s. \<not> is_version s \<and> is_graph s)
            (map fst (extract_strings_and_positions data))))
   \<and> is_version s = sublist ''v2.35.0'' s
   \<and> is_graph s =
       (sublist ''_quantized_htp'' s \<or> sublist ''_quantized_cpu'' s \<or> sublist ''_quantized_gpu'' s)"
proof -
  obtain r c where loop: "metrics_loop data (extract_strings_and_positions data) metric_patterns
       (initial_results file_path data) 0 = Inr (r, c)"
    and pf: "parse_file file_path data =
       Inr (r\<lparr>extraction_info := (extraction_info r)\<lparr>metrics_extracted := c\<rparr>\<rparr>)"
    by (rule parse_file_result)
  have fi: "file_info r = file_info (initial_results file_path data)"
    by (rule metrics_loop_file_info [OF loop])
  have "backend_version (file_info r) =
      last_or_empty (filter is_version (map fst (extract_strings_and_positions data)))"
    by (simp add: fi initial_results_def version_graph_loop_version last_or_empty_def)
  moreover have "graph_name (file_info r) =
      last_or_empty (filter (\<lambda>s. \<not> is_version s \<and> is_graph s)
        (map fst (extract_strings_and_positions data)))"
    by (simp add: fi initial_results_def version_graph_loop_graph last_or_empty_def)
  ultimately show ?thesis
    using pf by (simp add: is_version_def is_graph_def py_in_sublist)
qed

theorem parse_file_version_and_graph_witness:
  "\<exists>r. parse_file ''log'' several_names = Inr r
     \<and> backend_version (file_info r) = ''v2.35.0_quantized_gpu''
     \<and> graph_name (file_info r) = ''net_quantized_cpu''"
proof -
  have v: "last_or_empty (filter is_version (map fst (extract_strings_and_positions several_names)))
      = ''v2.35.0_quantized_gpu''"
    by code_simp
  have g: "last_or_empty (filter (\<lambda>s. \<not> is_version s \<and> is_graph s)
      (map fst (extract_strings_and_positions several_names))) = ''net_quantized_cpu''"
    by code_simp
  from parse_file_version_and_graph [of "''log''" several_names "[]"]
  show ?thesis unfolding v g by blast
qed

text \<open>
  C6.  As the claim states it, the occurrence offset that the report records is the one from
  which the accepted value was read, and the recorded resolved offset lies between \<open>0\<close> and
  \<open>len - 4\<close>.  In this buffer the label is at offsets 0 and 21 and the value 65536 is read
  from offset 21 with delta \<open>-12\<close>, while no probe from offset 0 is accepted; the report
  records the occurrence \<open>0x0000\<close> and the resolved offset \<open>0x-00c\<close>, which is \<open>-12\<close>.
\<close>

theorem first_position_reported:
  "extract_strings_and_positions value_before_second = [(''duration'', [0, 21])]
   \<and> first_accepted value_before_second ''timing'' [0, 21] = Some (21, -12)
   \<and> extract_value_at_offset value_before_second 21 (-12) = Inr (Some 65536)
   \<and> extract_value_at_offset value_before_second 0 (-12) = Inr None
   \<and> parse_file ''log'' value_before_second =
       Inr \<lparr>file_info =
              \<lparr>path = ''log'', size_bytes = 29, backend_version = [], graph_name = []\<rparr>,
            extraction_info =
              \<lparr>strings_found = 1, metrics_extracted = 1, failed_extractions = []\<rparr>,
            metrics_dict = [(''duration_us'', 65536)],
            raw_extraction_details =
              [\<lparr>detail_pattern = ''duration'', detail_key = ''duration_us'',
                detail_value = 65536, detail_string_position = ''0x0000'',
                detail_offset_used = -12, detail_extraction_position = ''0x-00c'',
                detail_unit = ''microseconds'', detail_type = ''timing''\<rparr>]\<rparr>
   \<and> parse_0x ''0x0000'' = 0 \<and> parse_0x ''0x-00c'' = -12"
  by code_simp

text \<open>
  C6, amended.  Every parse returns a report, and for every extraction detail in it: the
  recorded occurrence offset is the first occurrence of the label, which need not be the
  occurrence from which the value was read; the recorded resolved offset is the recorded
  occurrence offset plus the recorded delta (both are stored as text in the format
  \<^verbatim>\<open>0x%04x\<close>); the recorded value was read with the recorded delta at the occurrence \<open>p\<close>
  of the first accepted pair of the search; and the offset of that read, \<open>p\<close> plus the
  delta, satisfies \<open>0 \<le> p + delta \<le> len(data) - 4\<close>.
\<close>

theorem raw_extraction_details_positions:
  "\<exists>r. parse_file file_path data = Inr r
     \<and> (\<forall>d \<in> set (raw_extraction_details r).
           \<exists>positions p.
             map_of (extract_strings_and_positions data) (detail_pattern d) = Some positions
             \<and> positions \<noteq> []
             \<and> detail_string_position d = ''0x'' @ format_04x (hd positions)
             \<and> detail_extraction_position d =
                 ''0x'' @ format_04x (hd positions + detail_offset_used d)
             \<and> parse_0x (detail_string_position d) = hd positions
             \<and> parse_0x (detail_extraction_position d) =
                 parse_0x (detail_string_position d) + detail_offset_used d
             \<and> first_accepted data (detail_type d) positions = Some (p, detail_offset_used d)
             \<and> p \<in> set positions
             \<and> extract_value_at_offset data p (detail_offset_used d) = Inr (Some (detail_value d))
             \<and> 0 \<le> p + detail_offset_used d
             \<and> p + detail_offset_used d \<le> int (length data) - 4)"
proof -
  obtain r c where loop: "metrics_loop data (extract_strings_and_positions data) metric_patterns
       (initial_results file_path data) 0 = Inr (r, c)"
    and pf: "parse_file file_path data =
       Inr (r\<lparr>extraction_info := (extraction_info r)\<lparr>metrics_extracted := c\<rparr>\<rparr>)"
    by (rule parse_file_result)
  have sound: "list_all (detail_sound data (extract_strings_and_positions data))
      (raw_extraction_details r)"
    by (rule metrics_loop_details [OF loop]) (simp add: initial_results_empty)
  have "\<exists>positions p.
             map_of (extract_strings_and_positions data) (detail_pattern d) = Some positions
             \<and> positions \<noteq> []
             \<and> detail_string_position d = ''0x'' @ format_04x (hd positions)
             \<and> detail_extraction_position d =
                 ''0x'' @ format_04x (hd positions + detail_offset_used d)
             \<and> parse_0x (detail_string_position d) = hd positions
             \<and> parse_0x (detail_extraction_position d) =
                 parse_0x (detail_string_position d) + detail_offset_used d
             \<and> first_accepted data (detail_type d) positions = Some (p, detail_offset_used d)
             \<and> p \<in> set positions
             \<and> extract_value_at_offset data p (detail_offset_used d) = Inr (Some (detail_value d))
             \<and> 0 \<le> p + detail_offset_used d
             \<and> p + detail_offset_used d \<le> int (length data) - 4"
    if "d \<in> set (raw_extraction_details r)" for d
  proof -
    from sound that have "detail_sound data (extract_strings_and_positions data) d"
      by (simp add: list_all_iff)
    then show ?thesis
      by (auto simp: detail_sound_def parse_0x_format extract_value_at_offset_probe
          simp del: append.simps split: option.splits)
  qed
  with pf show ?thesis by simp
qed

theorem raw_extraction_details_positions_witness:
  "\<exists>positions p.
     map_of (extract_strings_and_positions value_before_second) ''duration'' = Some positions
     \<and> positions \<noteq> []
     \<and> ''0x0000'' = ''0x'' @ format_04x (hd positions)
     \<and> ''0x-00c'' = ''0x'' @ format_04x (hd positions + (-12))
     \<and> parse_0x ''0x0000'' = hd positions
     \<and> parse_0x ''0x-00c'' = parse_0x ''0x0000'' + (-12)
     \<and> first_accepted value_before_second ''timing'' positions = Some (p, -12)
     \<and> p \<in> set positions
     \<and> extract_value_at_offset value_before_second p (-12) = Inr (Some 65536)
     \<and> 0 \<le> p + (-12)
     \<and> p + (-12) \<le> int (length value_before_second) - 4"
proof -
  have pf: "parse_file ''log'' value_before_second =
       Inr \<lparr>file_info =
              \<lparr>path = ''log'', size_bytes = 29, backend_version = [], graph_name = []\<rparr>,
            extraction_info =
              \<lparr>strings_found = 1, metrics_extracted = 1, failed_extractions = []\<rparr>,
            metrics_dict = [(''duration_us'', 65536)],
            raw_extraction_details =
              [\<lparr>detail_pattern = ''duration'', detail_key = ''duration_us'',
                detail_value = 65536, detail_string_position = ''0x0000'',
                detail_offset_used = -12, detail_extraction_position = ''0x-00c'',
                detail_unit = ''microseconds'', detail_type = ''timing''\<rparr>]\<rparr>"
    by code_simp
  from raw_extraction_details_positions [of "''log''" value_before_second]
  show ?thesis
    unfolding pf by (simp del: append.simps)
qed

text \<open>
  C10.  Every parse returns a report in which the patterns of the extraction details are
  the labels of the metric table whose search succeeded, the failed extractions are the
  labels of the table that were found without an accepted value, and the keys of the
  metric map are the keys of the entries whose search succeeded, each list in the order of
  the table: it is the table with the other entries left out, wherever the labels stand in
  the buffer.
\<close>

theorem parse_file_table_order:
  "\<exists>r. parse_file file_path data = Inr r
     \<and> map detail_pattern (raw_extraction_details r) =
         map fst (filter (succeeded data (extract_strings_and_positions data)) metric_patterns)
     \<and> failed_extractions (extraction_info r) =
         map fst (filter (found_but_failed data (extract_strings_and_positions data))
           metric_patterns)
     \<and> map fst (metrics_dict r) =
         map (info_key \<circ> snd)
           (filter (succeeded data (extract_strings_and_positions data)) metric_patterns)
     \<and> subseq (map detail_pattern (raw_extraction_details r)) (map fst metric_patterns)
     \<and> subseq (failed_extractions (extraction_info r)) (map fst metric_patterns)
     \<and> subseq (map fst (metrics_dict r)) (map (info_key \<circ> snd) metric_patterns)"
proof -
  obtain r c where loop: "metrics_loop data (extract_strings_and_positions data) metric_patterns
       (initial_results file_path data) 0 = Inr (r, c)"
    and pf: "parse_file file_path data =
       Inr (r\<lparr>extraction_info := (extraction_info r)\<lparr>metrics_extracted := c\<rparr>\<rparr>)"
    by (rule parse_file_result)
  have a: "map detail_pattern (raw_extraction_details r) =
      map fst (filter (succeeded data (extract_strings_and_positions data)) metric_patterns)"
    using metrics_loop_patterns [OF loop] by (simp add: initial_results_empty)
  have b: "failed_extractions (extraction_info r) =
      map fst (filter (found_but_failed data (extract_strings_and_positions data))
        metric_patterns)"
    using metrics_loop_failed [OF loop] by (simp add: initial_results_empty)
  have c: "map fst (metrics_dict r) =
      map (info_key \<circ> snd)
        (filter (succeeded data (extract_strings_and_positions data)) metric_patterns)"
    using metrics_loop_keys [OF loop] metric_keys_distinct by (simp add: initial_results_empty)
  have sub: "subseq (map f (filter P xs)) (map f xs)" for f :: "string \<times> pattern_info \<Rightarrow> string"
    and P xs
    by (simp add: subseq_map)
  from pf a b c show ?thesis
    by (simp add: sub del: map_map)
qed

theorem parse_file_table_order_witness:
  "extract_strings_and_positions reverse_table_order =
     [(''numInferences'', [0]), (''duration'', [20]), (''RPC (execute) time'', [41])]
   \<and> (\<exists>r. parse_file ''log'' reverse_table_order = Inr r
        \<and> map detail_pattern (raw_extraction_details r) = [''duration'', ''numInferences'']
        \<and> failed_extractions (extraction_info r) = [''RPC (execute) time'']
        \<and> map fst (metrics_dict r) = [''duration_us'', ''num_inferences''])"
proof -
  have sp: "extract_strings_and_positions reverse_table_order =
     [(''numInferences'', [0]), (''duration'', [20]), (''RPC (execute) time'', [41])]"
    by code_simp
  have s: "filter (succeeded reverse_table_order
        [(''numInferences'', [0]), (''duration'', [20]), (''RPC (execute) time'', [41])])
      metric_patterns
      = [(''duration'', timing_us ''duration_us''), (''numInferences'', counter ''num_inferences'')]"
    by code_simp
  have f: "filter (found_but_failed reverse_table_order
        [(''numInferences'', [0]), (''duration'', [20]), (''RPC (execute) time'', [41])])
      metric_patterns
      = [(''RPC (execute) time'', timing_us ''rpc_execute_time_us'')]"
    by code_simp
  from parse_file_table_order [of "''log''" reverse_table_order]
  have "\<exists>r. parse_file ''log'' reverse_table_order = Inr r
        \<and> map detail_pattern (raw_extraction_details r) = [''duration'', ''numInferences'']
        \<and> failed_extractions (extraction_info r) = [''RPC (execute) time'']
        \<and> map fst (metrics_dict r) = [''duration_us'', ''num_inferences'']"
    unfolding sp s f by (auto simp: timing_us_def counter_def)
  with sp show ?thesis by (intro conjI)
qed

section \<open>The derived map\<close>

lemma component_loop_buckets:
  "component_loop items e f d =
     (e @ bucket in_execution_bucket items, f @ bucket in_finalize_bucket items,
      d @ bucket in_deinit_bucket items)"
  by (induction items e f d rule: component_loop.induct)
    (auto simp: bucket_def in_execution_bucket_def in_finalize_bucket_def in_deinit_bucket_def)

lemma primary_execution_time_eq:
  "primary_execution_time metrics derived =
     Inr (case primary metrics of
            None \<Rightarrow> derived
          | Some v \<Rightarrow> AList.update ''primary_execution_time_us'' (PyInt v) derived)"
  by (auto simp: primary_execution_time_def primary_def contains_def getitem_def and_then_def
      split: option.splits)

lemma throughput_calculations_eq:
  assumes "map_of derived ''primary_execution_time_us'' = map_option PyInt (primary metrics)"
  shows "throughput_calculations metrics derived =
     Inr (case primary metrics of
            None \<Rightarrow> derived
          | Some e \<Rightarrow>
              (case map_of metrics ''num_inferences'' of
                 None \<Rightarrow> derived
               | Some n \<Rightarrow>
                   if 0 < e \<and> 0 < n then
                     AList.update ''avg_time_per_inference_us'' (PyFloat (of_int e / of_int n))
                       (AList.update ''throughput_inferences_per_second''
                          (PyFloat (of_int (1000000 * n) / of_int e)) derived)
                   else derived))"
  using assms
  by (auto simp: throughput_calculations_def contains_def getitem_def and_then_def truediv_def
      split: option.splits)

lemma total_and_avg_eq:
  "total_and_avg total_key avg_key xs derived =
     Inr (if xs = [] then derived
          else AList.update avg_key (PyFloat (mean xs))
                 (AList.update total_key (PyInt (sum_list xs)) derived))"
  by (auto simp: total_and_avg_def and_then_def truediv_def mean_def)

lemma component_timing_analysis_eq:
  "component_timing_analysis metrics derived =
     Inr (let d1 = (if bucket in_execution_bucket metrics = [] then derived
                    else AList.update ''avg_execution_time_us''
                           (PyFloat (mean (bucket in_execution_bucket metrics)))
                           (AList.update ''total_execution_time_us''
                              (PyInt (sum_list (bucket in_execution_bucket metrics))) derived));
              d2 = (if bucket in_finalize_bucket metrics = [] then d1
                    else AList.update ''avg_finalize_time_us''
                           (PyFloat (mean (bucket in_finalize_bucket metrics)))
                           (AList.update ''total_finalize_time_us''
                              (PyInt (sum_list (bucket in_finalize_bucket metrics))) d1))
          in if bucket in_deinit_bucket metrics = [] then d2
             else AList.update ''avg_deinit_time_us''
                    (PyFloat (mean (bucket in_deinit_bucket metrics)))
                    (AList.update ''total_deinit_time_us''
                       (PyInt (sum_list (bucket in_deinit_bucket metrics))) d2))"
  by (simp add: component_timing_analysis_def component_loop_buckets total_and_avg_eq
      and_then_def Let_def)

lemma efficiency_calculations_eq:
  "efficiency_calculations metrics derived =
     Inr (case map_of metrics ''accelerator_execute_time_us'' of
            None \<Rightarrow> derived
          | Some a \<Rightarrow>
              (case map_of metrics ''qnn_execute_time_us'' of
                 None \<Rightarrow> derived
               | Some q \<Rightarrow>
                   if 0 < q then
                     AList.update ''accelerator_efficiency_percent''
                       (PyFloat (of_int a / of_int q * 100)) derived
                   else derived))"
  by (auto simp: efficiency_calculations_def contains_def getitem_def and_then_def truediv_def
      split: option.splits)

lemma rpc_overhead_analysis_eq:
  "rpc_overhead_analysis metrics derived =
     Inr (case map_of metrics ''rpc_execute_time_us'' of
            None \<Rightarrow> derived
          | Some r \<Rightarrow>
              (case map_of metrics ''accelerator_execute_time_us'' of
                 None \<Rightarrow> derived
               | Some a \<Rightarrow>
                   if 0 < a then
                     AList.update ''rpc_overhead_ratio'' (PyFloat (of_int r / of_int a)) derived
                   else derived))"
  by (auto simp: rpc_overhead_analysis_def contains_def getitem_def and_then_def truediv_def
      split: option.splits)

lemma primary_block:
  "\<exists>d'. primary_execution_time metrics d = Inr d'
     \<and> (\<forall>k. map_of d' k =
           (if k = ''primary_execution_time_us'' \<and> primary metrics \<noteq> None
            then map_option PyInt (primary metrics) else map_of d k))"
  by (auto simp: primary_execution_time_eq update_conv' split: option.splits)

lemma throughput_block:
  assumes "map_of d ''primary_execution_time_us'' = map_option PyInt (primary metrics)"
  shows "\<exists>d'. throughput_calculations metrics d = Inr d'
     \<and> (\<forall>k. map_of d' k =
           (if k = ''avg_time_per_inference_us'' \<and> avg_time_per_inference_us metrics \<noteq> None
            then avg_time_per_inference_us metrics
            else if k = ''throughput_inferences_per_second''
                    \<and> throughput_inferences_per_second metrics \<noteq> None
            then throughput_inferences_per_second metrics
            else map_of d k))"
  by (auto simp: throughput_calculations_eq [OF assms] update_conv'
      avg_time_per_inference_us_def throughput_inferences_per_second_def split: option.splits)

lemma total_and_avg_block:
  "\<exists>d'. total_and_avg total_key avg_key xs d = Inr d'
     \<and> (\<forall>k. map_of d' k =
           (if k = avg_key \<and> xs \<noteq> [] then bucket_avg xs
            else if k = total_key \<and> xs \<noteq> [] then bucket_total xs
            else map_of d k))"
  by (auto simp: total_and_avg_eq update_conv' bucket_avg_def bucket_total_def)

lemma component_block:
  "\<exists>d'. component_timing_analysis metrics d = Inr d'
     \<and> (\<forall>k. map_of d' k =
           (if k = ''avg_deinit_time_us'' \<and> bucket in_deinit_bucket metrics \<noteq> []
            then bucket_avg (bucket in_deinit_bucket metrics)
            else if k = ''total_deinit_time_us'' \<and> bucket in_deinit_bucket metrics \<noteq> []
            then bucket_total (bucket in_deinit_bucket metrics)
            else if k = ''avg_finalize_time_us'' \<and> bucket in_finalize_bucket metrics \<noteq> []
            then bucket_avg (bucket in_finalize_bucket metrics)
            else if k = ''total_finalize_time_us'' \<and> bucket in_finalize_bucket metrics \<noteq> []
            then bucket_total (bucket in_finalize_bucket metrics)
            else if k = ''avg_execution_time_us'' \<and> bucket in_execution_bucket metrics \<noteq> []
            then bucket_avg (bucket in_execution_bucket metrics)
            else if k = ''total_execution_time_us'' \<and> bucket in_execution_bucket metrics \<noteq> []
            then bucket_total (bucket in_execution_bucket metrics)
            else map_of d k))"
proof -
  obtain d1 where d1: "total_and_avg ''total_execution_time_us'' ''avg_execution_time_us''
      (bucket in_execution_bucket metrics) d = Inr d1"
    and m1: "\<And>k. map_of d1 k =
           (if k = ''avg_execution_time_us'' \<and> bucket in_execution_bucket metrics \<noteq> []
            then bucket_avg (bucket in_execution_bucket metrics)
            else if k = ''total_execution_time_us'' \<and> bucket in_execution_bucket metrics \<noteq> []
            then bucket_total (bucket in_execution_bucket metrics)
            else map_of d k)"
    using total_and_avg_block by blast
  obtain d2 where d2: "total_and_avg ''total_finalize_time_us'' ''avg_finalize_time_us''
      (bucket in_finalize_bucket metrics) d1 = Inr d2"
    and m2: "\<And>k. map_of d2 k =
           (if k = ''avg_finalize_time_us'' \<and> bucket in_finalize_bucket metrics \<noteq> []
            then bucket_avg (bucket in_finalize_bucket metrics)
            else if k = ''total_finalize_time_us'' \<and> bucket in_finalize_bucket metrics \<noteq> []
            then bucket_total (bucket in_finalize_bucket metrics)
            else map_of d1 k)"
    using total_and_avg_block by blast
  obtain d3 where d3: "total_and_avg ''total_deinit_time_us'' ''avg_deinit_time_us''
      (bucket in_deinit_bucket metrics) d2 = Inr d3"
    and m3: "\<And>k. map_of d3 k =
           (if k = ''avg_deinit_time_us'' \<and> bucket in_deinit_bucket metrics \<noteq> []
            then bucket_avg (bucket in_deinit_bucket metrics)
            else if k = ''total_deinit_time_us'' \<and> bucket in_deinit_bucket metrics \<noteq> []
            then bucket_total (bucket in_deinit_bucket metrics)
            else map_of d2 k)"
    using total_and_avg_block by blast
  have "component_timing_analysis metrics d = Inr d3"
    by (simp add: component_timing_analysis_def component_loop_buckets and_then_def d1 d2 d3)
  moreover have "map_of d3 k =
           (if k = ''avg_deinit_time_us'' \<and> bucket in_deinit_bucket metrics \<noteq> []
            then bucket_avg (bucket in_deinit_bucket metrics)
            else if k = ''total_deinit_time_us'' \<and> bucket in_deinit_bucket metrics \<noteq> []
            then bucket_total (bucket in_deinit_bucket metrics)
            else if k = ''avg_finalize_time_us'' \<and> bucket in_finalize_bucket metrics \<noteq> []
            then bucket_avg (bucket in_finalize_bucket metrics)
            else if k = ''total_finalize_time_us'' \<and> bucket in_finalize_bucket metrics \<noteq> []
            then bucket_total (bucket in_finalize_bucket metrics)
            else if k = ''avg_execution_time_us'' \<and> bucket in_execution_bucket metrics \<noteq> []
            then bucket_avg (bucket in_execution_bucket metrics)
            else if k = ''total_execution_time_us'' \<and> bucket in_execution_bucket metrics \<noteq> []
            then bucket_total (bucket in_execution_bucket metrics)
            else map_of d k)" for k
    unfolding m3 m2 m1 by (rule refl)
  ultimately show ?thesis by blast
qed

lemma efficiency_block:
  "\<exists>d'. efficiency_calculations metrics d = Inr d'
     \<and> (\<forall>k. map_of d' k =
           (if k = ''accelerator_efficiency_percent'' \<and> accelerator_efficiency_percent metrics \<noteq> None
            then accelerator_efficiency_percent metrics else map_of d k))"
  by (auto simp: efficiency_calculations_eq update_conv' accelerator_efficiency_percent_def
      split: option.splits)

lemma rpc_block:
  "\<exists>d'. rpc_overhead_analysis metrics d = Inr d'
     \<and> (\<forall>k. map_of d' k =
           (if k = ''rpc_overhead_ratio'' \<and> rpc_overhead_ratio metrics \<noteq> None
            then rpc_overhead_ratio metrics else map_of d k))"
  by (auto simp: rpc_overhead_analysis_eq update_conv' rpc_overhead_ratio_def
      split: option.splits)

lemma calculate_derived_metrics_values:
  "\<exists>d. calculate_derived_metrics metrics = Inr d \<and> (\<forall>k. map_of d k = derived_value metrics k)"
proof -
  obtain d1 where d1: "primary_execution_time metrics [] = Inr d1"
    and m1: "\<And>k. map_of d1 k =
           (if k = ''primary_execution_time_us'' \<and> primary metrics \<noteq> None
            then map_option PyInt (primary metrics) else map_of [] k)"
    using primary_block by blast
  have p: "map_of d1 ''primary_execution_time_us'' = map_option PyInt (primary metrics)"
    by (simp add: m1)
  obtain d2 where d2: "throughput_calculations metrics d1 = Inr d2"
    and m2: "\<And>k. map_of d2 k =
           (if k = ''avg_time_per_inference_us'' \<and> avg_time_per_inference_us metrics \<noteq> None
            then avg_time_per_inference_us metrics
            else if k = ''throughput_inferences_per_second''
                    \<and> throughput_inferences_per_second metrics \<noteq> None
            then throughput_inferences_per_second metrics
            else map_of d1 k)"
    using throughput_block [OF p] by blast
  obtain d3 where d3: "component_timing_analysis metrics d2 = Inr d3"
    and m3: "\<And>k. map_of d3 k =
           (if k = ''avg_deinit_time_us'' \<and> bucket in_deinit_bucket metrics \<noteq> []
            then bucket_avg (bucket in_deinit_bucket metrics)
            else if k = ''total_deinit_time_us'' \<and> bucket in_deinit_bucket metrics \<noteq> []
            then bucket_total (bucket in_deinit_bucket metrics)
            else if k = ''avg_finalize_time_us'' \<and> bucket in_finalize_bucket metrics \<noteq> []
            then bucket_avg (bucket in_finalize_bucket metrics)
            else if k = ''total_finalize_time_us'' \<and> bucket in_finalize_bucket metrics \<noteq> []
            then bucket_total (bucket in_finalize_bucket metrics)
            else if k = ''avg_execution_time_us'' \<and> bucket in_execution_bucket metrics \<noteq> []
            then bucket_avg (bucket in_execution_bucket metrics)
            else if k = ''total_execution_time_us'' \<and> bucket in_execution_bucket metrics \<noteq> []
            then bucket_total (bucket in_execution_bucket metrics)
            else map_of d2 k)"
    using component_block by blast
  obtain d4 where d4: "efficiency_calculations metrics d3 = Inr d4"
    and m4: "\<And>k. map_of d4 k =
           (if k = ''accelerator_efficiency_percent'' \<and> accelerator_efficiency_percent metrics \<noteq> None
            then accelerator_efficiency_percent metrics else map_of d3 k)"
    using efficiency_block by blast
  obtain d5 where d5: "rpc_overhead_analysis metrics d4 = Inr d5"
    and m5: "\<And>k. map_of d5 k =
           (if k = ''rpc_overhead_ratio'' \<and> rpc_overhead_ratio metrics \<noteq> None
            then rpc_overhead_ratio metrics else map_of d4 k)"
    using rpc_block by blast
  have run: "calculate_derived_metrics metrics = Inr d5"
    by (simp add: calculate_derived_metrics_def and_then_def d1 d2 d3 d4 d5)
  have "map_of d5 k = derived_value metrics k" for k
    unfolding m5 m4 m3 m2 m1 derived_value_def
    by (auto simp: bucket_avg_def bucket_total_def)
  with run show ?thesis by blast
qed

lemma map_of_bucket:
  "map_of metrics k = Some v \<Longrightarrow> test k \<Longrightarrow> bucket test metrics \<noteq> []"
  by (force simp: bucket_def filter_empty_conv dest!: map_of_SomeD)

lemma no_execution_no_primary:
  assumes "bucket in_execution_bucket metrics = []"
  shows "map_of metrics ''qnn_execute_time_us'' = None
    \<and> map_of metrics ''accelerator_execute_time_us'' = None"
proof -
  have "in_execution_bucket ''qnn_execute_time_us''"
    "in_execution_bucket ''accelerator_execute_time_us''"
    by (simp_all add: in_execution_bucket_def)
  with assms map_of_bucket [of metrics _ _ in_execution_bucket] show ?thesis
    by (metis not_Some_eq)
qed

lemma calculate_derived_metrics_empty:
  assumes "bucket in_execution_bucket metrics = []" "bucket in_finalize_bucket metrics = []"
    "bucket in_deinit_bucket metrics = []"
  shows "calculate_derived_metrics metrics = Inr []"
proof -
  from no_execution_no_primary [OF assms(1)]
  have q: "map_of metrics ''qnn_execute_time_us'' = None"
    and a: "map_of metrics ''accelerator_execute_time_us'' = None" by auto
  then have p: "primary metrics = None" by (simp add: primary_def)
  have t: "throughput_calculations metrics [] = Inr []"
    by (subst throughput_calculations_eq) (simp_all add: p)
  show ?thesis
    by (simp add: calculate_derived_metrics_def and_then_def primary_execution_time_eq p t
        component_timing_analysis_eq assms efficiency_calculations_eq rpc_overhead_analysis_eq
        q a split: option.splits)
qed

text \<open>
  C8.  For every metric map the calculation returns a derived map (\<open>Inr\<close>: neither a
  division by zero nor a missing key raises).  The map is empty when the three buckets are
  empty, which leaves no rule with its precondition: the two execute keys that rules 1, 2,
  4 and 5 need belong to the execution bucket.  Each key whose value is a quotient is
  present only under the guard of its rule, which makes the divisor positive: the primary
  execution time and the number of inferences for the throughput and the average time per
  inference, the length of a non-empty bucket for its average, \<open>qnn_execute_time_us\<close> for
  the efficiency and \<open>accelerator_execute_time_us\<close> for the RPC overhead.
\<close>

theorem calculate_derived_metrics_total:
  "\<exists>d. calculate_derived_metrics metrics = Inr d
     \<and> (bucket in_execution_bucket metrics = [] \<and> bucket in_finalize_bucket metrics = []
          \<and> bucket in_deinit_bucket metrics = [] \<longrightarrow> d = [])
     \<and> map_of d ''throughput_inferences_per_second'' =
         (case primary metrics of
            None \<Rightarrow> None
          | Some exec_time \<Rightarrow>
              (case map_of metrics ''num_inferences'' of
                 None \<Rightarrow> None
               | Some num_inf \<Rightarrow>
                   if 0 < exec_time \<and> 0 < num_inf
                   then Some (PyFloat (of_int (1000000 * num_inf) / of_int exec_time))
                   else None))
     \<and> map_of d ''avg_time_per_inference_us'' =
         (case primary metrics of
            None \<Rightarrow> None
          | Some exec_time \<Rightarrow>
              (case map_of metrics ''num_inferences'' of
                 None \<Rightarrow> None
               | Some num_inf \<Rightarrow>
                   if 0 < exec_time \<and> 0 < num_inf
                   then Some (PyFloat (of_int exec_time / of_int num_inf))
                   else None))
     \<and> map_of d ''avg_execution_time_us'' =
         (if 0 < length (bucket in_execution_bucket metrics)
          then Some (PyFloat (of_int (sum_list (bucket in_execution_bucket metrics))
                       / of_int (int (length (bucket in_execution_bucket metrics)))))
          else None)
     \<and> map_of d ''avg_finalize_time_us'' =
         (if 0 < length (bucket in_finalize_bucket metrics)
          then Some (PyFloat (of_int (sum_list (bucket in_finalize_bucket metrics))
                       / of_int (int (length (bucket in_finalize_bucket metrics)))))
          else None)
     \<and> map_of d ''avg_deinit_time_us'' =
         (if 0 < length (bucket in_deinit_bucket metrics)
          then Some (PyFloat (of_int (sum_list (bucket in_deinit_bucket metrics))
                       / of_int (int (length (bucket in_deinit_bucket metrics)))))
          else None)
     \<and> map_of d ''accelerator_efficiency_percent'' =
         (case map_of metrics ''accelerator_execute_time_us'' of
            None \<Rightarrow> None
          | Some acc \<Rightarrow>
              (case map_of metrics ''qnn_execute_time_us'' of
                 None \<Rightarrow> None
               | Some qnn \<Rightarrow>
                   if 0 < qnn then Some (PyFloat (of_int acc / of_int qnn * 100)) else None))
     \<and> map_of d ''rpc_overhead_ratio'' =
         (case map_of metrics ''rpc_execute_time_us'' of
            None \<Rightarrow> None
          | Some rpc \<Rightarrow>
              (case map_of metrics ''accelerator_execute_time_us'' of
                 None \<Rightarrow> None
               | Some acc \<Rightarrow>
                   if 0 < acc then Some (PyFloat (of_int rpc / of_int acc)) else None))"
proof -
  obtain d where run: "calculate_derived_metrics metrics = Inr d"
    and v: "\<And>k. map_of d k = derived_value metrics k"
    using calculate_derived_metrics_values by blast
  have empty: "d = []"
    if "bucket in_execution_bucket metrics = [] \<and> bucket in_finalize_bucket metrics = []
          \<and> bucket in_deinit_bucket metrics = []"
    using calculate_derived_metrics_empty [of metrics] that run by simp
  have t: "map_of d ''throughput_inferences_per_second'' =
      throughput_inferences_per_second metrics"
    by (simp add: v derived_value_def)
  have a: "map_of d ''avg_time_per_inference_us'' = avg_time_per_inference_us metrics"
    by (simp add: v derived_value_def)
  have e: "map_of d ''avg_execution_time_us'' = bucket_avg (bucket in_execution_bucket metrics)"
    by (simp add: v derived_value_def)
  have f: "map_of d ''avg_finalize_time_us'' = bucket_avg (bucket in_finalize_bucket metrics)"
    by (simp add: v derived_value_def)
  have i: "map_of d ''avg_deinit_time_us'' = bucket_avg (bucket in_deinit_bucket metrics)"
    by (simp add: v derived_value_def)
  have c: "map_of d ''accelerator_efficiency_percent'' = accelerator_efficiency_percent metrics"
    by (simp add: v derived_value_def)
  have r: "map_of d ''rpc_overhead_ratio'' = rpc_overhead_ratio metrics"
    by (simp add: v derived_value_def)
  have avg: "bucket_avg xs =
      (if 0 < length xs then Some (PyFloat (of_int (sum_list xs) / of_int (int (length xs))))
       else None)" for xs
    by (simp add: bucket_avg_def mean_def)
  show ?thesis
    apply (rule exI [of _ d])
    apply (intro conjI)
            apply (rule run)
           apply (rule impI, erule empty)
          apply (simp only: t throughput_inferences_per_second_def)
         apply (simp only: a avg_time_per_inference_us_def)
        apply (simp only: e avg)
       apply (simp only: f avg)
      apply (simp only: i avg)
     apply (simp only: c accelerator_efficiency_percent_def)
    apply (simp only: r rpc_overhead_ratio_def)
    done
qed

theorem calculate_derived_metrics_total_witness:
  "calculate_derived_metrics [] = Inr []
   \<and> (\<exists>d. calculate_derived_metrics [(''qnn_execute_time_us'', 2000), (''num_inferences'', 10)]
            = Inr d
        \<and> map_of d ''throughput_inferences_per_second'' = Some (PyFloat 5000)
        \<and> map_of d ''avg_time_per_inference_us'' = Some (PyFloat 200))
   \<and> (\<exists>d. calculate_derived_metrics [(''qnn_execute_time_us'', 0), (''num_inferences'', 10)]
            = Inr d
        \<and> map_of d ''throughput_inferences_per_second'' = None
        \<and> map_of d ''avg_time_per_inference_us'' = None)"
proof -
  from calculate_derived_metrics_total [of "[]"]
  have one: "calculate_derived_metrics [] = Inr []"
    by (auto simp: bucket_def)
  from calculate_derived_metrics_total
    [of "[(''qnn_execute_time_us'', 2000), (''num_inferences'', 10)]"]
  have two: "\<exists>d. calculate_derived_metrics
        [(''qnn_execute_time_us'', 2000), (''num_inferences'', 10)] = Inr d
        \<and> map_of d ''throughput_inferences_per_second'' = Some (PyFloat 5000)
        \<and> map_of d ''avg_time_per_inference_us'' = Some (PyFloat 200)"
    by (auto simp: primary_def)
  from calculate_derived_metrics_total
    [of "[(''qnn_execute_time_us'', 0), (''num_inferences'', 10)]"]
  have three: "\<exists>d. calculate_derived_metrics
        [(''qnn_execute_time_us'', 0), (''num_inferences'', 10)] = Inr d
        \<and> map_of d ''throughput_inferences_per_second'' = None
        \<and> map_of d ''avg_time_per_inference_us'' = None"
    by (auto simp: primary_def)
  from one two three show ?thesis by (intro conjI)
qed

lemma table_keys_by_suffix:
  "list_all (\<lambda>k.
       in_execution_bucket k = execute_time_key k
       \<and> in_finalize_bucket k = finalize_time_key k
       \<and> in_deinit_bucket k = deinit_time_key k)
     (map (info_key \<circ> snd) metric_patterns)"
  by code_simp

lemma primitive_buckets:
  assumes "primitive_metrics metrics"
  shows "bucket in_execution_bucket metrics = bucket execute_time_key metrics"
    and "bucket in_finalize_bucket metrics = bucket finalize_time_key metrics"
    and "bucket in_deinit_bucket metrics = bucket deinit_time_key metrics"
proof -
  have same: "in_execution_bucket (fst item) = execute_time_key (fst item)
      \<and> in_finalize_bucket (fst item) = finalize_time_key (fst item)
      \<and> in_deinit_bucket (fst item) = deinit_time_key (fst item)"
    if "item \<in> set metrics" for item
  proof -
    from assms that have "fst item \<in> set (map (info_key \<circ> snd) metric_patterns)"
      by (simp add: primitive_metrics_def list_all_iff)
    with table_keys_by_suffix show ?thesis
      unfolding list_all_iff by blast
  qed
  show "bucket in_execution_bucket metrics = bucket execute_time_key metrics"
    unfolding bucket_def using same by (intro arg_cong [of _ _ "map snd"] filter_cong) auto
  show "bucket in_finalize_bucket metrics = bucket finalize_time_key metrics"
    unfolding bucket_def using same by (intro arg_cong [of _ _ "map snd"] filter_cong) auto
  show "bucket in_deinit_bucket metrics = bucket deinit_time_key metrics"
    unfolding bucket_def using same by (intro arg_cong [of _ _ "map snd"] filter_cong) auto
qed

lemma primary_not_primitive:
  "''primary_execution_time_us'' \<notin> set (map (info_key \<circ> snd) metric_patterns)"
  by (simp add: metric_patterns_def timing_us_def counter_def)

lemma parse_file_primitive_metrics:
  "\<exists>r. parse_file file_path data = Inr r \<and> primitive_metrics (metrics_dict r)"
proof -
  obtain r c where loop: "metrics_loop data (extract_strings_and_positions data) metric_patterns
       (initial_results file_path data) 0 = Inr (r, c)"
    and pf: "parse_file file_path data =
       Inr (r\<lparr>extraction_info := (extraction_info r)\<lparr>metrics_extracted := c\<rparr>\<rparr>)"
    by (rule parse_file_result)
  have "map fst (metrics_dict r) =
      map (info_key \<circ> snd)
        (filter (succeeded data (extract_strings_and_positions data)) metric_patterns)"
    using metrics_loop_keys [OF loop] metric_keys_distinct by (simp add: initial_results_empty)
  then have "primitive_metrics (metrics_dict r)"
    unfolding primitive_metrics_def list_all_iff by auto
  with pf show ?thesis by simp
qed

text \<open>
  C9.  The primitive metric map of every parse has keys of the metric table only, and for
  every such map: the three lists that the loop of the calculation builds are the values of
  the keys that contain \<open>execute\<close>, \<open>finalize\<close> and \<open>deinit\<close> respectively and end with
  \<open>time_us\<close>, in the order of the map, each key tested for each bucket on its own;
  \<open>primary_execution_time_us\<close> is not a key of the map and passes none of the tests; and
  the calculation returns a derived map in which \<open>total_<bucket>_time_us\<close> and
  \<open>avg_<bucket>_time_us\<close> are present exactly for the non-empty buckets and are the sum
  and the arithmetic mean of the values of the bucket.
\<close>

theorem calculate_derived_metrics_buckets:
  "(primitive_metrics metrics \<longrightarrow>
      component_loop metrics [] [] [] =
        (bucket execute_time_key metrics, bucket finalize_time_key metrics,
         bucket deinit_time_key metrics)
      \<and> ''primary_execution_time_us'' \<notin> set (map fst metrics)
      \<and> (\<exists>d. calculate_derived_metrics metrics = Inr d
            \<and> map_of d ''total_execution_time_us'' =
                (if bucket execute_time_key metrics = [] then None
                 else Some (PyInt (sum_list (bucket execute_time_key metrics))))
            \<and> map_of d ''avg_execution_time_us'' =
                (if bucket execute_time_key metrics = [] then None
                 else Some (PyFloat (mean (bucket execute_time_key metrics))))
            \<and> map_of d ''total_finalize_time_us'' =
                (if bucket finalize_time_key metrics = [] then None
                 else Some (PyInt (sum_list (bucket finalize_time_key metrics))))
            \<and> map_of d ''avg_finalize_time_us'' =
                (if bucket finalize_time_key metrics = [] then None
                 else Some (PyFloat (mean (bucket finalize_time_key metrics))))
            \<and> map_of d ''total_deinit_time_us'' =
                (if bucket deinit_time_key metrics = [] then None
                 else Some (PyInt (sum_list (bucket deinit_time_key metrics))))
            \<and> map_of d ''avg_deinit_time_us'' =
                (if bucket deinit_time_key metrics = [] then None
                 else Some (PyFloat (mean (bucket deinit_time_key metrics))))))
   \<and> execute_time_key k = (sublist ''execute'' k \<and> suffix ''time_us'' k)
   \<and> finalize_time_key k = (sublist ''finalize'' k \<and> suffix ''time_us'' k)
   \<and> deinit_time_key k = (sublist ''deinit'' k \<and> suffix ''time_us'' k)
   \<and> \<not> execute_time_key ''primary_execution_time_us''
   \<and> \<not> finalize_time_key ''primary_execution_time_us''
   \<and> \<not> deinit_time_key ''primary_execution_time_us''
   \<and> (\<exists>r. parse_file file_path data = Inr r \<and> primitive_metrics (metrics_dict r))"
proof -
  have main: "component_loop metrics [] [] [] =
        (bucket execute_time_key metrics, bucket finalize_time_key metrics,
         bucket deinit_time_key metrics)
      \<and> ''primary_execution_time_us'' \<notin> set (map fst metrics)
      \<and> (\<exists>d. calculate_derived_metrics metrics = Inr d
            \<and> map_of d ''total_execution_time_us'' =
                (if bucket execute_time_key metrics = [] then None
                 else Some (PyInt (sum_list (bucket execute_time_key metrics))))
            \<and> map_of d ''avg_execution_time_us'' =
                (if bucket execute_time_key metrics = [] then None
                 else Some (PyFloat (mean (bucket execute_time_key metrics))))
            \<and> map_of d ''total_finalize_time_us'' =
                (if bucket finalize_time_key metrics = [] then None
                 else Some (PyInt (sum_list (bucket finalize_time_key metrics))))
            \<and> map_of d ''avg_finalize_time_us'' =
                (if bucket finalize_time_key metrics = [] then None
                 else Some (PyFloat (mean (bucket finalize_time_key metrics))))
            \<and> map_of d ''total_deinit_time_us'' =
                (if bucket deinit_time_key metrics = [] then None
                 else Some (PyInt (sum_list (bucket deinit_time_key metrics))))
            \<and> map_of d ''avg_deinit_time_us'' =
                (if bucket deinit_time_key metrics = [] then None
                 else Some (PyFloat (mean (bucket deinit_time_key metrics)))))"
    if prim: "primitive_metrics metrics"
  proof -
    note b = primitive_buckets [OF prim]
    have lists: "component_loop metrics [] [] [] =
        (bucket execute_time_key metrics, bucket finalize_time_key metrics,
         bucket deinit_time_key metrics)"
      by (simp add: component_loop_buckets b)
    have absent: "''primary_execution_time_us'' \<notin> set (map fst metrics)"
      using prim primary_not_primitive
      unfolding primitive_metrics_def list_all_iff by blast
    obtain d where run: "calculate_derived_metrics metrics = Inr d"
      and v: "\<And>k. map_of d k = derived_value metrics k"
      using calculate_derived_metrics_values by blast
    have vals: "\<exists>d. calculate_derived_metrics metrics = Inr d
            \<and> map_of d ''total_execution_time_us'' =
                (if bucket execute_time_key metrics = [] then None
                 else Some (PyInt (sum_list (bucket execute_time_key metrics))))
            \<and> map_of d ''avg_execution_time_us'' =
                (if bucket execute_time_key metrics = [] then None
                 else Some (PyFloat (mean (bucket execute_time_key metrics))))
            \<and> map_of d ''total_finalize_time_us'' =
                (if bucket finalize_time_key metrics = [] then None
                 else Some (PyInt (sum_list (bucket finalize_time_key metrics))))
            \<and> map_of d ''avg_finalize_time_us'' =
                (if bucket finalize_time_key metrics = [] then None
                 else Some (PyFloat (mean (bucket finalize_time_key metrics))))
            \<and> map_of d ''total_deinit_time_us'' =
                (if bucket deinit_time_key metrics = [] then None
                 else Some (PyInt (sum_list (bucket deinit_time_key metrics))))
            \<and> map_of d ''avg_deinit_time_us'' =
                (if bucket deinit_time_key metrics = [] then None
                 else Some (PyFloat (mean (bucket deinit_time_key metrics))))"
      by (rule exI [of _ d])
        (simp add: run v derived_value_def bucket_total_def bucket_avg_def b)
    from lists absent vals show ?thesis by (intro conjI)
  qed
  have tests: "execute_time_key k = (sublist ''execute'' k \<and> suffix ''time_us'' k)"
    "finalize_time_key k = (sublist ''finalize'' k \<and> suffix ''time_us'' k)"
    "deinit_time_key k = (sublist ''deinit'' k \<and> suffix ''time_us'' k)"
    by (simp_all add: execute_time_key_def finalize_time_key_def deinit_time_key_def
        py_in_sublist)
  have prim: "\<not> execute_time_key ''primary_execution_time_us''"
    "\<not> finalize_time_key ''primary_execution_time_us''"
    "\<not> deinit_time_key ''primary_execution_time_us''"
    by code_simp+
  from main tests prim parse_file_primitive_metrics [of file_path data]
  show ?thesis by blast
qed

theorem calculate_derived_metrics_buckets_witness:
  "primitive_metrics five_timings
   \<and> component_loop five_timings [] [] [] = ([80, 100, 7], [], [3, 4])
   \<and> (\<exists>d. calculate_derived_metrics five_timings = Inr d
        \<and> map_of d ''total_execution_time_us'' = Some (PyInt 187)
        \<and> map_of d ''avg_execution_time_us'' = Some (PyFloat (187 / 3))
        \<and> map_of d ''total_finalize_time_us'' = None
        \<and> map_of d ''avg_finalize_time_us'' = None
        \<and> map_of d ''total_deinit_time_us'' = Some (PyInt 7)
        \<and> map_of d ''avg_deinit_time_us'' = Some (PyFloat (7 / 2)))"
proof -
  have p: "primitive_metrics five_timings"
    by code_simp
  have e: "bucket execute_time_key five_timings = [80, 100, 7]"
    by code_simp
  have f: "bucket finalize_time_key five_timings = []"
    by code_simp
  have i: "bucket deinit_time_key five_timings = [3, 4]"
    by code_simp
  note t = calculate_derived_metrics_buckets [of five_timings "[]" "[]" "[]",
      THEN conjunct1, rule_format, OF p, unfolded e f i]
  from t have lists: "component_loop five_timings [] [] [] = ([80, 100, 7], [], [3, 4])"
    by (rule conjunct1)
  from t have vals: "\<exists>d. calculate_derived_metrics five_timings = Inr d
        \<and> map_of d ''total_execution_time_us'' = Some (PyInt 187)
        \<and> map_of d ''avg_execution_time_us'' = Some (PyFloat (187 / 3))
        \<and> map_of d ''total_finalize_time_us'' = None
        \<and> map_of d ''avg_finalize_time_us'' = None
        \<and> map_of d ''total_deinit_time_us'' = Some (PyInt 7)
        \<and> map_of d ''avg_deinit_time_us'' = Some (PyFloat (7 / 2))"
    by (simp add: mean_def)
  from p lists vals show ?thesis by (intro conjI)
qed

end
